theory Spec2Isabelle
  imports Main
begin

section \<open>Text helpers of the Python runtime\<close>

text \<open>
  Step ordinals are the values of \<^verbatim>\<open>step_counter\<close> in \<^verbatim>\<open>process_steps\<close>: they start at 1
  and only grow, so they are natural numbers. \<open>str_nat\<close> is the decimal rendering that an
  f-string gives a non-negative integer, \<open>pad3\<close> the format \<^verbatim>\<open>{step_number:03}\<close>.
\<close>

definition digit_char :: "nat \<Rightarrow> char" where
  "digit_char d = ''0123456789'' ! d"

function str_nat :: "nat \<Rightarrow> string" where
  "str_nat n = (if n < 10 then [digit_char n] else str_nat (n div 10) @ [digit_char (n mod 10)])"
  by pat_completeness auto
termination
  by (relation "measure (\<lambda>n. n)") auto

declare str_nat.simps [simp del]

definition pad3 :: "string \<Rightarrow> string" where
  "pad3 s = replicate (3 - length s) (CHR ''0'') @ s"

text \<open>
  \<^verbatim>\<open>os.path.join\<close>, \<^verbatim>\<open>os.path.basename\<close> and \<^verbatim>\<open>os.path.splitext\<close> of the POSIX flavour
  (\<^verbatim>\<open>posixpath\<close>), for two components.
\<close>

definition path_join :: "string \<Rightarrow> string \<Rightarrow> string" where
  "path_join a b =
     (if b \<noteq> [] \<and> hd b = CHR ''/'' then b
      else if a = [] \<or> last a = CHR ''/'' then a @ b
      else a @ ''/'' @ b)"

definition basename :: "string \<Rightarrow> string" where
  "basename p = rev (takeWhile (\<lambda>c. c \<noteq> CHR ''/'') (rev p))"

definition splitext_root :: "string \<Rightarrow> string" where
  "splitext_root p =
     (let d = dropWhile (\<lambda>c. c \<noteq> CHR ''.'') (rev p);
          ext = takeWhile (\<lambda>c. c \<noteq> CHR ''.'') (rev p)
      in if d = [] then p
         else if CHR ''/'' \<in> set ext then p
         else if list_ex (\<lambda>c. c \<noteq> CHR ''.'') (basename (rev (tl d))) then rev (tl d)
         else p)"

text \<open>
  \<^verbatim>\<open>re.search(r'step_(\d+)\.py', name)\<close>: the leftmost place where \<^verbatim>\<open>step_\<close>, one or more
  digits and \<^verbatim>\<open>.py\<close> follow each other; the result is group 1, the digits. The greedy
  \<^verbatim>\<open>\d+\<close> never needs to give a digit back, since the character after fewer digits is a
  digit and not the dot.
\<close>

definition is_digit :: "char \<Rightarrow> bool" where
  "is_digit c = (c \<in> set ''0123456789'')"

definition match_step_at :: "string \<Rightarrow> string option" where
  "match_step_at s =
     (if take 5 s = ''step_'' then
        (let ds = takeWhile is_digit (drop 5 s); rest = dropWhile is_digit (drop 5 s)
         in if ds \<noteq> [] \<and> take 3 rest = ''.py'' then Some ds else None)
      else None)"

fun search_step_number :: "string \<Rightarrow> string option" where
  "search_step_number [] = None"
| "search_step_number (c # cs) =
     (case match_step_at (c # cs) of Some ds \<Rightarrow> Some ds | None \<Rightarrow> search_step_number cs)"

section \<open>Syntax trees of generated code\<close>

text \<open>
  The part of Python's \<^verbatim>\<open>ast\<close> that \<^verbatim>\<open>add_main_block\<close> and \<^verbatim>\<open>extract_class_name\<close> look
  at. \<^verbatim>\<open>ast.If\<close> nodes are statements, so they are found among nested statement lists only;
  every other statement keeps just its nested statements. A comparison \<^verbatim>\<open>ast.Compare\<close> has
  its left operand, its operators and its other operands (\<^verbatim>\<open>left\<close>, \<^verbatim>\<open>ops\<close>,
  \<^verbatim>\<open>comparators\<close>); of the constants only strings are kept.
\<close>

datatype cmpop = ast_Eq | ast_NotEq | ast_Lt | ast_LtE | ast_Gt | ast_GtE
  | ast_Is | ast_IsNot | ast_In | ast_NotIn

datatype expr = Name string | Constant string | Compare expr "cmpop list" "expr list" | OtherExpr

datatype stmt =
    ClassDef string "stmt list"
  | FunctionDef string "stmt list"
  | If expr "stmt list" "stmt list"
  | OtherStmt "stmt list"

fun is_name_test :: "expr \<Rightarrow> bool" where
  "is_name_test (Compare (Name x) ops comparators) =
     (x = ''__name__'' \<and> list_ex (\<lambda>op. op = ast_Eq \<or> op = ast_Is) ops)"
| "is_name_test _ = False"

fun walk_has_main :: "stmt \<Rightarrow> bool" where
  "walk_has_main (If t body orelse) =
     (is_name_test t \<or> list_ex walk_has_main body \<or> list_ex walk_has_main orelse)"
| "walk_has_main (ClassDef nm body) = list_ex walk_has_main body"
| "walk_has_main (FunctionDef nm body) = list_ex walk_has_main body"
| "walk_has_main (OtherStmt body) = list_ex walk_has_main body"

definition has_main :: "stmt list \<Rightarrow> bool" where
  "has_main tree = list_ex walk_has_main tree"

fun first_class :: "stmt list \<Rightarrow> string option" where
  "first_class [] = None"
| "first_class (ClassDef nm body # rest) = Some nm"
| "first_class (s # rest) = first_class rest"

text \<open>Python's \<^verbatim>\<open>not x\<close> for an optional string: \<^verbatim>\<open>None\<close> and the empty string are false.\<close>

definition falsy :: "string option \<Rightarrow> bool" where
  "falsy x = (case x of None \<Rightarrow> True | Some s \<Rightarrow> s = [])"

section \<open>Normalisation and class discovery (step\_manager.py)\<close>

text \<open>
  \<^verbatim>\<open>ast.parse\<close> belongs to the Python runtime, not to the repository: it is a parameter
  \<open>parse\<close>, with \<open>None\<close> for a \<^verbatim>\<open>SyntaxError\<close> or any other exception (both handlers of
  the source return the same value).
\<close>

definition main_code :: "nat \<Rightarrow> string" where
  \<open>main_code step_number =
     ''\<newline>\<newline>if __name__ == "__main__":\<newline>    step = Step'' @ str_nat step_number
       @ ''()\<newline>    step.execute()\<newline>''\<close>

definition add_main_block :: "(string \<Rightarrow> stmt list option) \<Rightarrow> string \<Rightarrow> nat \<Rightarrow> string" where
  "add_main_block parse step_code step_number =
     (case parse step_code of
        None \<Rightarrow> step_code
      | Some tree \<Rightarrow> if \<not> has_main tree then step_code @ main_code step_number else step_code)"

definition extract_class_name :: "(string \<Rightarrow> stmt list option) \<Rightarrow> string \<Rightarrow> string option" where
  "extract_class_name parse step_code =
     (case parse step_code of None \<Rightarrow> None | Some tree \<Rightarrow> first_class tree)"

text \<open>The statement that the appended guard is: an \<^verbatim>\<open>if\<close> over two simple statements.\<close>

definition main_guard :: stmt where
  "main_guard =
     If (Compare (Name ''__name__'') [ast_Eq] [Constant ''__main__'']) [OtherStmt [], OtherStmt []] []"

section \<open>The world outside the orchestrator\<close>

text \<open>
  A remote target of the configuration, with the keys that \<^verbatim>\<open>validate_config\<close> demands,
  and the part of the configuration that the orchestrator reads.
\<close>

record server =
  hostname :: string
  port :: int
  username :: string
  password :: "string option"
  ssh_key_path :: string
  execute_remotely :: bool
  steps_to_execute :: "int list"

record config =
  steps_directory :: string
  solution_directory :: string
  max_retries :: int
  remote_servers :: "server list"

datatype backend = Local | Remote server

text \<open>
  What the orchestrator does to the outside is recorded in a trace, oldest event first:
  the start of a step of the plan, every request to the completion service, every call of
  \<^verbatim>\<open>run_step\<close>, \<^verbatim>\<open>fix_code_with_gpt4\<close> and \<^verbatim>\<open>update_step_code\<close>, and the calls of the
  assembler. Of the log lines only \<^verbatim>\<open>Max retries exceeded\<close> is recorded, which tells a
  loop that used up its budget from one that gave up earlier. Pauses (\<^verbatim>\<open>time.sleep\<close>) are
  not recorded.
\<close>

datatype event =
    Visit nat
  | ApiRequest
  | RunStep string backend
  | FixRequest nat
  | UpdateStep string string
  | MaxRetriesExceeded nat
  | Assemble "string list"
  | RunMain string
  | FixMainRequest
  | UpdateMain string string
  | MainRetriesExceeded

record world =
  files :: "string \<Rightarrow> string option"
  trace :: "event list"

definition emit :: "event \<Rightarrow> world \<Rightarrow> world" where
  "emit e w = w\<lparr>trace := trace w @ [e]\<rparr>"

text \<open>
  A call of the program does not always return. \<open>stop\<close> lists the ways in which it does
  not: an exception that no handler of the program catches (\<^verbatim>\<open>AttributeError\<close> when the
  name in an \<^verbatim>\<open>except\<close> clause does not resolve, a \<^verbatim>\<open>UnicodeError\<close> of a file that is not
  UTF-8 or of a text that cannot be encoded), or a call into the outside that never ends
  (no time limit is set on a child process, a remote command or a request). Nothing in the
  program catches such an exception on its way up, so it ends the run. The result of a call is
  its value or the stop, with the world it leaves behind.
\<close>

datatype stop = AttributeError | UnicodeError | Hangs

type_synonym 'a result = "(stop + 'a) \<times> world"

text \<open>
  Answers of the libraries and services that are not part of the repository. Each may
  depend on everything that happened before (the world, with its trace), so a scripted
  sequence of answers is an environment too.
  \<^item> \<open>Reply s\<close>: the completion service answered and \<open>s\<close> is
    \<^verbatim>\<open>response.choices[0].message.content.strip()\<close>; \<open>RateLimited\<close>: the request raised the
    rate-limit error of the library; \<open>ApiFailed\<close>: it raised another error of the library;
    \<open>OtherFailure\<close>: anything else was raised inside the \<^verbatim>\<open>try\<close> (also by the call itself
    or by reading the answer); \<open>Unanswered\<close>: the request never returns.
  \<^item> \<open>has_toplevel_errors\<close>: the names \<^verbatim>\<open>openai.RateLimitError\<close> and \<^verbatim>\<open>openai.OpenAIError\<close>
    of the handlers in \<^verbatim>\<open>generate_step_code\<close> resolve; \<open>has_error_module\<close>: the names
    \<^verbatim>\<open>openai.error.RateLimitError\<close> and \<^verbatim>\<open>openai.error.OpenAIError\<close> of the handlers in
    \<^verbatim>\<open>fix_code_with_gpt4\<close> and \<^verbatim>\<open>fix_main_with_gpt4\<close> resolve. Python evaluates the first
    handler's name when something has been raised; a name that does not resolve raises
    \<^verbatim>\<open>AttributeError\<close> in place of what was raised, and no handler is tried.
  \<^item> \<open>file_read\<close>: \<open>None\<close> when \<^verbatim>\<open>open\<close> and \<^verbatim>\<open>read\<close> raise nothing, else what they
    raise: an \<^verbatim>\<open>IOError\<close>, or something that is no \<^verbatim>\<open>IOError\<close>. A file that is not there
    is an \<^verbatim>\<open>IOError\<close> as well.
  \<^item> \<open>file_write\<close>: \<open>Written\<close>; \<open>OpenFails\<close>, an \<^verbatim>\<open>IOError\<close> of \<^verbatim>\<open>open\<close>, the file as it
    was; \<open>WriteFails left\<close>, an \<^verbatim>\<open>IOError\<close> after \<^verbatim>\<open>open\<close> has truncated the file, which
    is left holding \<open>left\<close>; \<open>WriteRaises s left\<close>, the same with something that is no
    \<^verbatim>\<open>IOError\<close>.
  \<^item> \<open>Exited code out err\<close>: \<^verbatim>\<open>subprocess.run\<close> returned a finished child (with
    \<^verbatim>\<open>check=True\<close> a non-zero code raises \<^verbatim>\<open>CalledProcessError\<close>); \<open>SpawnFailed\<close>: any
    other exception; \<open>NeverExits\<close>: the child does not end. With the result comes the file
    system as the child leaves it: a child can rewrite, empty or remove any file, its own
    source too.
  \<^item> \<open>Streams out err status\<close>: \<^verbatim>\<open>exec_command\<close> gave the decoded streams of a remote
    command that ended with \<open>status\<close>; \<open>ExecRaised msg\<close>: it raised, \<open>msg\<close> is \<^verbatim>\<open>str(e)\<close>;
    \<open>NeverEnds\<close>: reading the streams does not end. Again with the file system afterwards.
\<close>

datatype api_result = Reply string | RateLimited | ApiFailed | OtherFailure | Unanswered

datatype read_fault = ReadIOError | ReadRaises stop

datatype write_outcome = Written | OpenFails | WriteFails string | WriteRaises stop string

datatype proc_result = Exited int string string | SpawnFailed | NeverExits

datatype ssh_result = Streams string string int | ExecRaised string | NeverEnds

record env =
  ast_parse :: "string \<Rightarrow> stmt list option"
  has_toplevel_errors :: bool
  has_error_module :: bool
  generate_api :: "world \<Rightarrow> string \<Rightarrow> string \<Rightarrow> nat \<Rightarrow> api_result"
  fix_api :: "world \<Rightarrow> string \<Rightarrow> string \<Rightarrow> nat \<Rightarrow> string \<Rightarrow> api_result"
  fix_main_api :: "world \<Rightarrow> string \<Rightarrow> string \<Rightarrow> string \<Rightarrow> api_result"
  file_read :: "world \<Rightarrow> string \<Rightarrow> read_fault option"
  file_write :: "world \<Rightarrow> string \<Rightarrow> string \<Rightarrow> write_outcome"
  path_exists :: "world \<Rightarrow> string \<Rightarrow> bool"
  subprocess_run :: "world \<Rightarrow> string \<Rightarrow> proc_result \<times> (string \<Rightarrow> string option)"
  ssh_connect :: "world \<Rightarrow> server \<Rightarrow> bool"
  sftp_put :: "world \<Rightarrow> server \<Rightarrow> string \<Rightarrow> string \<Rightarrow> bool"
  exec_command :: "world \<Rightarrow> server \<Rightarrow> string \<Rightarrow> ssh_result \<times> (string \<Rightarrow> string option)"

section \<open>Files\<close>

text \<open>
  \<^verbatim>\<open>with open(path, 'w') as file: file.write(text)\<close> inside \<^verbatim>\<open>try ... except IOError\<close>: the
  value says whether no \<^verbatim>\<open>IOError\<close> was raised. The same for \<^verbatim>\<open>open(path, 'r')\<close> and
  \<^verbatim>\<open>read\<close>, where \<open>None\<close> is the \<^verbatim>\<open>IOError\<close>. What is no \<^verbatim>\<open>IOError\<close> is not caught.
\<close>

definition write_file :: "env \<Rightarrow> world \<Rightarrow> string \<Rightarrow> string \<Rightarrow> bool result" where
  "write_file E w path text =
     (case file_write E w path text of
        Written \<Rightarrow> (Inr True, w\<lparr>files := (files w)(path \<mapsto> text)\<rparr>)
      | OpenFails \<Rightarrow> (Inr False, w)
      | WriteFails left \<Rightarrow> (Inr False, w\<lparr>files := (files w)(path \<mapsto> left)\<rparr>)
      | WriteRaises s left \<Rightarrow> (Inl s, w\<lparr>files := (files w)(path \<mapsto> left)\<rparr>))"

definition read_file :: "env \<Rightarrow> world \<Rightarrow> string \<Rightarrow> stop + string option" where
  "read_file E w path =
     (case file_read E w path of
        Some ReadIOError \<Rightarrow> Inr None
      | Some (ReadRaises s) \<Rightarrow> Inl s
      | None \<Rightarrow> Inr (files w path))"

definition save_step_code :: "env \<Rightarrow> config \<Rightarrow> world \<Rightarrow> nat \<Rightarrow> string \<Rightarrow> string option result" where
  "save_step_code E cfg w step_number step_code =
     (let step_filename = ''step_'' @ pad3 (str_nat step_number) @ ''.py'';
          step_path = path_join (steps_directory cfg) step_filename
      in case write_file E w step_path step_code of
           (Inl s, w') \<Rightarrow> (Inl s, w')
         | (Inr True, w') \<Rightarrow> (Inr (Some step_path), w')
         | (Inr False, w') \<Rightarrow> (Inr None, w'))"

definition get_step_code :: "env \<Rightarrow> world \<Rightarrow> string \<Rightarrow> stop + string" where
  "get_step_code E w step_path =
     (case read_file E w step_path of
        Inl s \<Rightarrow> Inl s
      | Inr (Some text) \<Rightarrow> Inr text
      | Inr None \<Rightarrow> Inr [])"

definition update_step_code :: "env \<Rightarrow> world \<Rightarrow> string \<Rightarrow> string \<Rightarrow> unit result" where
  "update_step_code E w step_path new_code =
     (case write_file E (emit (UpdateStep step_path new_code) w) step_path new_code of
        (Inl s, w') \<Rightarrow> (Inl s, w')
      | (Inr written, w') \<Rightarrow> (Inr (), w'))"

section \<open>The completion service and its back-off loop\<close>

text \<open>
  \<^verbatim>\<open>generate_step_code\<close>, \<^verbatim>\<open>fix_code_with_gpt4\<close> and \<^verbatim>\<open>fix_main_with_gpt4\<close> wrap their
  request in the same loop and differ in the request and in how they spell the names of
  their handlers, so the loop takes both: \<open>resolves\<close> says whether the handlers' names
  resolve. At most three requests are made, the next one only after a rate-limit error; an
  answer is returned as it is, empty or not; any other error gives \<^verbatim>\<open>None\<close>. With names
  that do not resolve, whatever a request raises leaves the function as
  \<^verbatim>\<open>AttributeError\<close>. The prompt is a fixed function of the arguments, so the service is
  given the arguments.
\<close>

function with_backoff ::
  "bool \<Rightarrow> (world \<Rightarrow> api_result) \<Rightarrow> int \<Rightarrow> world \<Rightarrow> string option result" where
  "with_backoff resolves request retries w =
     (if retries < 3 then
        (case request w of
           Reply code \<Rightarrow> (Inr (Some code), emit ApiRequest w)
         | RateLimited \<Rightarrow>
             if resolves then with_backoff resolves request (retries + 1) (emit ApiRequest w)
             else (Inl AttributeError, emit ApiRequest w)
         | ApiFailed \<Rightarrow>
             if resolves then (Inr None, emit ApiRequest w)
             else (Inl AttributeError, emit ApiRequest w)
         | OtherFailure \<Rightarrow>
             if resolves then (Inr None, emit ApiRequest w)
             else (Inl AttributeError, emit ApiRequest w)
         | Unanswered \<Rightarrow> (Inl Hangs, emit ApiRequest w))
      else (Inr None, w))"
  by pat_completeness auto
termination
  by (relation "measure (\<lambda>(resolves, request, retries, w). nat (3 - retries))") auto

declare with_backoff.simps [simp del]

definition generate_step_code ::
  "env \<Rightarrow> world \<Rightarrow> string \<Rightarrow> string \<Rightarrow> nat \<Rightarrow> string option result" where
  "generate_step_code E w step_description problem_definition step_number =
     with_backoff (has_toplevel_errors E)
       (\<lambda>w'. generate_api E w' problem_definition step_description step_number) 0 w"

definition fix_code_with_gpt4 ::
  "env \<Rightarrow> world \<Rightarrow> string \<Rightarrow> string \<Rightarrow> nat \<Rightarrow> string \<Rightarrow> string option result" where
  "fix_code_with_gpt4 E w error_message step_code step_number problem_definition =
     with_backoff (has_error_module E)
       (\<lambda>w'. fix_api E w' error_message step_code step_number problem_definition) 0
       (emit (FixRequest step_number) w)"

section \<open>Execution back ends (ssh\_manager.py, step\_manager.py)\<close>

text \<open>
  \<^verbatim>\<open>SSHManager.establish_connection\<close>: with a key path the key file must exist before the
  connection is tried; every exception of the library is a \<^verbatim>\<open>False\<close>.
  \<^verbatim>\<open>SSHManager.execute_command\<close> turns every exception into an empty output and the
  exception's text as the error text.
\<close>

definition establish_connection :: "env \<Rightarrow> world \<Rightarrow> server \<Rightarrow> bool" where
  "establish_connection E w sc =
     (if ssh_key_path sc \<noteq> [] then
        (if \<not> path_exists E w (ssh_key_path sc) then False else ssh_connect E w sc)
      else ssh_connect E w sc)"

definition execute_command ::
  "env \<Rightarrow> world \<Rightarrow> server \<Rightarrow> string \<Rightarrow> (stop + string \<times> string) \<times> (string \<Rightarrow> string option)" where
  "execute_command E w sc command =
     (case exec_command E w sc command of
        (Streams out err status, fs) \<Rightarrow> (Inr (out, err), fs)
      | (ExecRaised msg, fs) \<Rightarrow> (Inr ([], msg), fs)
      | (NeverEnds, fs) \<Rightarrow> (Inl Hangs, fs))"

definition run_step ::
  "env \<Rightarrow> world \<Rightarrow> string \<Rightarrow> bool \<Rightarrow> server option \<Rightarrow> (bool \<times> string) result" where
  "run_step E w step_path remotely server_config =
     (case (remotely, server_config) of
        (True, Some sc) \<Rightarrow>
          (let w' = emit (RunStep step_path (Remote sc)) w in
           if \<not> establish_connection E w sc then (Inr (False, ''SSH connection failed.''), w')
           else
             (let remote_path = ''/tmp/'' @ basename step_path in
              if \<not> sftp_put E w sc step_path remote_path
              then (Inr (False, ''File transfer failed.''), w')
              else
                (case execute_command E w sc (''python '' @ remote_path) of
                   (Inl s, fs) \<Rightarrow> (Inl s, w'\<lparr>files := fs\<rparr>)
                 | (Inr (out, err), fs) \<Rightarrow>
                     if err = [] then (Inr (True, out), w'\<lparr>files := fs\<rparr>)
                     else (Inr (False, err), w'\<lparr>files := fs\<rparr>))))
      | _ \<Rightarrow>
          (let w' = emit (RunStep step_path Local) w in
           case subprocess_run E w step_path of
             (Exited code out err, fs) \<Rightarrow>
               if code = 0 then (Inr (True, out), w'\<lparr>files := fs\<rparr>)
               else (Inr (False, err), w'\<lparr>files := fs\<rparr>)
           | (SpawnFailed, fs) \<Rightarrow> (Inr (False, ''Execution failed.''), w'\<lparr>files := fs\<rparr>)
           | (NeverExits, fs) \<Rightarrow> (Inl Hangs, w'\<lparr>files := fs\<rparr>)))"

section \<open>The execute-and-repair loop of a step\<close>

function efs_loop ::
  "env \<Rightarrow> string \<Rightarrow> nat \<Rightarrow> string \<Rightarrow> int \<Rightarrow> bool \<Rightarrow> server option \<Rightarrow> int \<Rightarrow> world \<Rightarrow> bool result" where
  "efs_loop E step_path step_number problem_definition maxr remotely server_config retries w =
     (if retries < maxr then
        (case run_step E w step_path remotely server_config of
           (Inl s, w1) \<Rightarrow> (Inl s, w1)
         | (Inr (success, output_or_error), w1) \<Rightarrow>
             if success then (Inr True, w1)
             else
               (case get_step_code E w1 step_path of
                  Inl s \<Rightarrow> (Inl s, w1)
                | Inr step_code \<Rightarrow>
                    if step_code = [] then (Inr False, w1)
                    else
                      (case fix_code_with_gpt4 E w1 output_or_error step_code step_number
                              problem_definition of
                         (Inl s, w2) \<Rightarrow> (Inl s, w2)
                       | (Inr corrected_code, w2) \<Rightarrow>
                           if \<not> falsy corrected_code then
                             (case update_step_code E w2 step_path (the corrected_code) of
                                (Inl s, w3) \<Rightarrow> (Inl s, w3)
                              | (Inr u, w3) \<Rightarrow>
                                  efs_loop E step_path step_number problem_definition maxr
                                    remotely server_config (retries + 1) w3)
                           else (Inr False, w2))))
      else (Inr False, emit (MaxRetriesExceeded step_number) w))"
  by pat_completeness auto
termination
  by (relation "measure (\<lambda>(E, p, n, pr, maxr, r, sc, retries, w). nat (maxr - retries))") auto

declare efs_loop.simps [simp del]

definition execute_and_fix_step ::
  "env \<Rightarrow> world \<Rightarrow> string \<Rightarrow> nat \<Rightarrow> string \<Rightarrow> int \<Rightarrow> bool \<Rightarrow> server option \<Rightarrow> bool result" where
  "execute_and_fix_step E w step_path step_number problem_definition maxr remotely server_config =
     efs_loop E step_path step_number problem_definition maxr remotely server_config 0 w"

section \<open>The step orchestrator (main\_pipeline.py)\<close>

text \<open>
  The scan of the remote targets in \<^verbatim>\<open>process_steps\<close>: the first target whose
  \<^verbatim>\<open>steps_to_execute\<close> holds the ordinal gives both results, its \<^verbatim>\<open>execute_remotely\<close> flag
  and itself, and ends the scan; without one the initial values stay.
\<close>

fun select_backend :: "server list \<Rightarrow> nat \<Rightarrow> bool \<times> server option" where
  "select_backend [] step_counter = (False, None)"
| "select_backend (server # rest) step_counter =
     (if int step_counter \<in> set (steps_to_execute server)
      then (execute_remotely server, Some server)
      else select_backend rest step_counter)"

text \<open>
  The body of the inner loop, on the loop's variables \<^verbatim>\<open>executed_steps\<close> and
  \<^verbatim>\<open>step_counter\<close> and the world. Each way out that returns increments \<^verbatim>\<open>step_counter\<close>
  itself, as the source does before each \<^verbatim>\<open>continue\<close> and at the end of the body. The
  body has no \<^verbatim>\<open>try\<close>: a stop of one of its calls is the body's.
\<close>

definition process_step ::
  "env \<Rightarrow> config \<Rightarrow> string \<Rightarrow> string \<Rightarrow> string list \<times> nat \<Rightarrow> world \<Rightarrow> (string list \<times> nat) result" where
  "process_step E cfg problem_definition step st w0 =
     (case st of (executed_steps, step_counter) \<Rightarrow>
        (case generate_step_code E (emit (Visit step_counter) w0) step problem_definition
                step_counter of
           (Inl s, w1) \<Rightarrow> (Inl s, w1)
         | (Inr generated, w1) \<Rightarrow>
             if falsy generated then (Inr (executed_steps, step_counter + 1), w1)
             else
               (let step_code = add_main_block (ast_parse E) (the generated) step_counter in
                case save_step_code E cfg w1 step_counter step_code of
                  (Inl s, w2) \<Rightarrow> (Inl s, w2)
                | (Inr step_path, w2) \<Rightarrow>
                    if falsy step_path then (Inr (executed_steps, step_counter + 1), w2)
                    else if falsy (extract_class_name (ast_parse E) step_code)
                    then (Inr (executed_steps, step_counter + 1), w2)
                    else
                      (case select_backend (remote_servers cfg) step_counter of
                         (remotely, server_config) \<Rightarrow>
                           (case execute_and_fix_step E w2 (the step_path) step_counter
                                   problem_definition (max_retries cfg) remotely server_config of
                              (Inl s, w3) \<Rightarrow> (Inl s, w3)
                            | (Inr success, w3) \<Rightarrow>
                                if success
                                then (Inr (executed_steps @ [the step_path], step_counter + 1), w3)
                                else (Inr (executed_steps, step_counter + 1), w3))))))"

fun process_section ::
  "env \<Rightarrow> config \<Rightarrow> string \<Rightarrow> string list \<Rightarrow> string list \<times> nat \<Rightarrow> world \<Rightarrow> (string list \<times> nat) result" where
  "process_section E cfg problem_definition [] st w = (Inr st, w)"
| "process_section E cfg problem_definition (step # steps) st w =
     (case process_step E cfg problem_definition step st w of
        (Inl s, w') \<Rightarrow> (Inl s, w')
      | (Inr st', w') \<Rightarrow> process_section E cfg problem_definition steps st' w')"

text \<open>
  The plan is a dictionary from section titles to lists of step descriptions, walked in
  insertion order: an association list.
\<close>

fun process_sections ::
  "env \<Rightarrow> config \<Rightarrow> string \<Rightarrow> (string \<times> string list) list \<Rightarrow> string list \<times> nat \<Rightarrow> world
     \<Rightarrow> (string list \<times> nat) result" where
  "process_sections E cfg problem_definition [] st w = (Inr st, w)"
| "process_sections E cfg problem_definition ((title, steps) # plan) st w =
     (case process_section E cfg problem_definition steps st w of
        (Inl s, w') \<Rightarrow> (Inl s, w')
      | (Inr st', w') \<Rightarrow> process_sections E cfg problem_definition plan st' w')"

definition process_steps ::
  "env \<Rightarrow> config \<Rightarrow> world \<Rightarrow> (string \<times> string list) list \<Rightarrow> string \<Rightarrow> string list result" where
  "process_steps E cfg w plan problem_definition =
     (case process_sections E cfg problem_definition plan ([], 1) w of
        (Inl s, w') \<Rightarrow> (Inl s, w')
      | (Inr (executed_steps, step_counter), w') \<Rightarrow> (Inr executed_steps, w'))"

section \<open>The solution assembler (solution\_assembler.py)\<close>

text \<open>
  The assembler has its own copies of \<^verbatim>\<open>get_step_code\<close> and \<^verbatim>\<open>extract_class_name\<close>, with
  the same bodies as those of the step manager; the definitions above stand for both.
\<close>

definition assemble_one ::
  "env \<Rightarrow> world \<Rightarrow> string \<Rightarrow> string \<times> string \<Rightarrow> stop + string \<times> string" where
  "assemble_one E w step_path acc =
     (case acc of (main_imports, main_executions) \<Rightarrow>
        (let step_filename = basename step_path;
             module_name = splitext_root step_filename
         in case search_step_number step_filename of
              None \<Rightarrow> Inr acc
            | Some step_number \<Rightarrow>
                (case get_step_code E w step_path of
                   Inl s \<Rightarrow> Inl s
                 | Inr step_code \<Rightarrow>
                     if step_code = [] then Inr acc
                     else
                       (let class_name = extract_class_name (ast_parse E) step_code in
                        if falsy class_name then Inr acc
                        else
                          Inr (main_imports @ ''from steps.'' @ module_name @ '' import ''
                                 @ the class_name @ ''\<newline>'',
                               main_executions @ ''    step'' @ step_number @ '' = ''
                                 @ the class_name @ ''()\<newline>'' @ ''    step'' @ step_number
                                 @ ''.execute()\<newline>\<newline>'')))))"

fun assemble_loop ::
  "env \<Rightarrow> world \<Rightarrow> string list \<Rightarrow> string \<times> string \<Rightarrow> stop + string \<times> string" where
  "assemble_loop E w [] acc = Inr acc"
| "assemble_loop E w (step_path # rest) acc =
     (case assemble_one E w step_path acc of
        Inl s \<Rightarrow> Inl s
      | Inr acc' \<Rightarrow> assemble_loop E w rest acc')"

definition main_text :: "string \<Rightarrow> string \<Rightarrow> string" where
  \<open>main_text main_imports main_executions =
     replicate 24 (CHR '' '') @ main_imports @ ''\<newline>\<newline>''
       @ replicate 24 (CHR '' '') @ ''def main():\<newline>''
       @ replicate 24 (CHR '' '') @ main_executions @ ''\<newline>\<newline>''
       @ replicate 24 (CHR '' '') @ ''if __name__ == "__main__":\<newline>''
       @ replicate 28 (CHR '' '') @ ''main()\<newline>''
       @ replicate 24 (CHR '' '')\<close>

definition assemble_solution :: "env \<Rightarrow> config \<Rightarrow> world \<Rightarrow> string list \<Rightarrow> string option result" where
  "assemble_solution E cfg w executed_steps =
     (let w0 = emit (Assemble executed_steps) w in
      case assemble_loop E w0 executed_steps ([], []) of
        Inl s \<Rightarrow> (Inl s, w0)
      | Inr (main_imports, main_executions) \<Rightarrow>
          if main_imports = [] \<and> main_executions = [] then (Inr None, w0)
          else
            (let main_file_path = path_join (solution_directory cfg) ''main.py'' in
             case write_file E w0 main_file_path (main_text main_imports main_executions) of
               (Inl s, w') \<Rightarrow> (Inl s, w')
             | (Inr True, w') \<Rightarrow> (Inr (Some main_file_path), w')
             | (Inr False, w') \<Rightarrow> (Inr None, w')))"

definition execute_main :: "env \<Rightarrow> world \<Rightarrow> string \<Rightarrow> (bool \<times> string) result" where
  "execute_main E w main_file_path =
     (let w' = emit (RunMain main_file_path) w in
      case subprocess_run E w main_file_path of
        (Exited code out err, fs) \<Rightarrow>
          if code = 0 then (Inr (True, out), w'\<lparr>files := fs\<rparr>)
          else (Inr (False, err), w'\<lparr>files := fs\<rparr>)
      | (SpawnFailed, fs) \<Rightarrow> (Inr (False, ''Execution failed.''), w'\<lparr>files := fs\<rparr>)
      | (NeverExits, fs) \<Rightarrow> (Inl Hangs, w'\<lparr>files := fs\<rparr>))"

definition fix_main_with_gpt4 ::
  "env \<Rightarrow> world \<Rightarrow> string \<Rightarrow> string \<Rightarrow> string \<Rightarrow> string option result" where
  "fix_main_with_gpt4 E w error_message main_source problem_definition =
     with_backoff (has_error_module E)
       (\<lambda>w'. fix_main_api E w' error_message main_source problem_definition) 0
       (emit FixMainRequest w)"

definition get_main_code :: "env \<Rightarrow> world \<Rightarrow> string \<Rightarrow> stop + string" where
  "get_main_code E w main_file_path =
     (case read_file E w main_file_path of
        Inl s \<Rightarrow> Inl s
      | Inr (Some text) \<Rightarrow> Inr text
      | Inr None \<Rightarrow> Inr [])"

definition update_main_code :: "env \<Rightarrow> world \<Rightarrow> string \<Rightarrow> string \<Rightarrow> unit result" where
  "update_main_code E w main_file_path new_code =
     (case write_file E (emit (UpdateMain main_file_path new_code) w) main_file_path new_code of
        (Inl s, w') \<Rightarrow> (Inl s, w')
      | (Inr written, w') \<Rightarrow> (Inr (), w'))"

function efm_loop :: "env \<Rightarrow> string \<Rightarrow> string \<Rightarrow> int \<Rightarrow> int \<Rightarrow> world \<Rightarrow> bool result" where
  "efm_loop E main_file_path problem_definition maxr retries w =
     (if retries < maxr then
        (case execute_main E w main_file_path of
           (Inl s, w1) \<Rightarrow> (Inl s, w1)
         | (Inr (success, output_or_error), w1) \<Rightarrow>
             if success then (Inr True, w1)
             else
               (case get_main_code E w1 main_file_path of
                  Inl s \<Rightarrow> (Inl s, w1)
                | Inr main_source \<Rightarrow>
                    if main_source = [] then (Inr False, w1)
                    else
                      (case fix_main_with_gpt4 E w1 output_or_error main_source
                              problem_definition of
                         (Inl s, w2) \<Rightarrow> (Inl s, w2)
                       | (Inr corrected_code, w2) \<Rightarrow>
                           if \<not> falsy corrected_code then
                             (case update_main_code E w2 main_file_path (the corrected_code) of
                                (Inl s, w3) \<Rightarrow> (Inl s, w3)
                              | (Inr u, w3) \<Rightarrow>
                                  efm_loop E main_file_path problem_definition maxr
                                    (retries + 1) w3)
                           else (Inr False, w2))))
      else (Inr False, emit MainRetriesExceeded w))"
  by pat_completeness auto
termination
  by (relation "measure (\<lambda>(E, p, pr, maxr, retries, w). nat (maxr - retries))") auto

declare efm_loop.simps [simp del]

definition execute_and_fix_main :: "env \<Rightarrow> world \<Rightarrow> string \<Rightarrow> string \<Rightarrow> int \<Rightarrow> bool result" where
  "execute_and_fix_main E w main_file_path problem_definition maxr =
     efm_loop E main_file_path problem_definition maxr 0 w"

definition assemble_and_execute_solution ::
  "env \<Rightarrow> config \<Rightarrow> world \<Rightarrow> string list \<Rightarrow> string \<Rightarrow> bool result" where
  "assemble_and_execute_solution E cfg w executed_steps problem_definition =
     (case assemble_solution E cfg w executed_steps of
        (Inl s, w1) \<Rightarrow> (Inl s, w1)
      | (Inr main_file_path, w1) \<Rightarrow>
          if falsy main_file_path then (Inr False, w1)
          else execute_and_fix_main E w1 (the main_file_path) problem_definition (max_retries cfg))"

text \<open>
  \<^verbatim>\<open>MainPipeline.run\<close> from the loaded plan and problem to the result of the assembled
  solution: \<open>SysExit1\<close> is \<^verbatim>\<open>sys.exit(1)\<close>; after \<open>SolutionRan\<close> the source goes on to copy
  the solution directory to the remote targets, which changes nothing of what is recorded
  here. A stop of a call is the run's: neither \<^verbatim>\<open>run\<close> nor \<^verbatim>\<open>main\<close> has a \<^verbatim>\<open>try\<close>.
\<close>

datatype run_outcome = SysExit1 | SolutionRan

definition run ::
  "env \<Rightarrow> config \<Rightarrow> world \<Rightarrow> (string \<times> string list) list \<Rightarrow> string \<Rightarrow> run_outcome result" where
  "run E cfg w plan problem =
     (case process_steps E cfg w plan problem of
        (Inl s, w1) \<Rightarrow> (Inl s, w1)
      | (Inr executed_steps, w1) \<Rightarrow>
          if executed_steps = [] then (Inr SysExit1, w1)
          else
            (case assemble_and_execute_solution E cfg w1 executed_steps problem of
               (Inl s, w2) \<Rightarrow> (Inl s, w2)
             | (Inr success, w2) \<Rightarrow>
                 if success then (Inr SolutionRan, w2) else (Inr SysExit1, w2)))"

section \<open>Reading the trace\<close>

fun is_run :: "event \<Rightarrow> bool" where
  "is_run (RunStep p b) = True"
| "is_run _ = False"

fun is_fix :: "event \<Rightarrow> bool" where
  "is_fix (FixRequest n) = True"
| "is_fix _ = False"

fun is_update :: "event \<Rightarrow> bool" where
  "is_update (UpdateStep p c) = True"
| "is_update _ = False"

definition executions :: "world \<Rightarrow> nat" where
  "executions w = length (filter is_run (trace w))"

definition oracle_calls :: "world \<Rightarrow> nat" where
  "oracle_calls w = length (filter is_fix (trace w))"

definition updates :: "world \<Rightarrow> nat" where
  "updates w = length (filter is_update (trace w))"

fun visits :: "event list \<Rightarrow> nat list" where
  "visits [] = []"
| "visits (Visit n # es) = n # visits es"
| "visits (e # es) = visits es"

fun backends :: "event list \<Rightarrow> backend list" where
  "backends [] = []"
| "backends (RunStep p b # es) = b # backends es"
| "backends (e # es) = backends es"

text \<open>The back end that \<^verbatim>\<open>run_step\<close> takes for its two last arguments.\<close>

definition backend_of :: "bool \<Rightarrow> server option \<Rightarrow> backend" where
  "backend_of remotely server_config =
     (case (remotely, server_config) of (True, Some sc) \<Rightarrow> Remote sc | _ \<Rightarrow> Local)"

text \<open>
  One pass through the body of the loop in \<^verbatim>\<open>execute_and_fix_step\<close>, for the proofs: the
  pass either leaves the loop with a result or goes round again in a new world. Lemma
  \<open>efs_loop_pass\<close> below says that the loop is the iteration of this pass.
\<close>

datatype pass = Leaves "bool result" | GoesOn world

definition loop_pass ::
  "env \<Rightarrow> string \<Rightarrow> nat \<Rightarrow> string \<Rightarrow> bool \<Rightarrow> server option \<Rightarrow> world \<Rightarrow> pass" where
  "loop_pass E step_path step_number problem_definition remotely server_config w =
     (case run_step E w step_path remotely server_config of
        (Inl s, w1) \<Rightarrow> Leaves (Inl s, w1)
      | (Inr (success, output_or_error), w1) \<Rightarrow>
          if success then Leaves (Inr True, w1)
          else
            (case get_step_code E w1 step_path of
               Inl s \<Rightarrow> Leaves (Inl s, w1)
             | Inr step_code \<Rightarrow>
                 if step_code = [] then Leaves (Inr False, w1)
                 else
                   (case fix_code_with_gpt4 E w1 output_or_error step_code step_number
                           problem_definition of
                      (Inl s, w2) \<Rightarrow> Leaves (Inl s, w2)
                    | (Inr corrected_code, w2) \<Rightarrow>
                        if \<not> falsy corrected_code then
                          (case update_step_code E w2 step_path (the corrected_code) of
                             (Inl s, w3) \<Rightarrow> Leaves (Inl s, w3)
                           | (Inr u, w3) \<Rightarrow> GoesOn w3)
                        else Leaves (Inr False, w2))))"

section \<open>Example environments\<close>

text \<open>
  Concrete worlds on which the statements below are run. \<open>quiet_env\<close> answers every
  request with a failure that the program catches; the others change what a scenario
  needs. Children and remote commands of the examples leave the files as they are.
\<close>

definition quiet_env :: env where
  "quiet_env =
     \<lparr>ast_parse = (\<lambda>s. None),
      has_toplevel_errors = True,
      has_error_module = True,
      generate_api = (\<lambda>w pr d n. ApiFailed),
      fix_api = (\<lambda>w e c n pr. ApiFailed),
      fix_main_api = (\<lambda>w e c pr. ApiFailed),
      file_read = (\<lambda>w p. None),
      file_write = (\<lambda>w p t. Written),
      path_exists = (\<lambda>w p. True),
      subprocess_run = (\<lambda>w p. (SpawnFailed, files w)),
      ssh_connect = (\<lambda>w s. False),
      sftp_put = (\<lambda>w s a b. False),
      exec_command = (\<lambda>w s c. (ExecRaised [], files w))\<rparr>"

definition stored_world :: world where
  "stored_world = \<lparr>files = [''steps/step_001.py'' \<mapsto> ''class Step1: pass''], trace = []\<rparr>"

definition empty_world :: world where
  "empty_world = \<lparr>files = Map.empty, trace = []\<rparr>"

definition example_config :: config where
  "example_config =
     \<lparr>steps_directory = ''steps'', solution_directory = ''solution'', max_retries = 2,
      remote_servers = []\<rparr>"

fun pass_world :: "pass \<Rightarrow> world" where
  "pass_world (Leaves res) = snd res"
| "pass_world (GoesOn w) = w"

fun is_repair :: "event \<Rightarrow> bool" where
  "is_repair (FixRequest n) = True"
| "is_repair ApiRequest = True"
| "is_repair (UpdateStep p c) = True"
| "is_repair _ = False"

text \<open>
  \<open>never_fixed\<close>: the step file runs successfully only when it holds the good text, and the
  oracle never returns it. \<open>fixed_once\<close>: the same child, and the oracle returns the good
  text. \<open>unreadable\<close>: every execution fails, the oracle always has a correction, and the
  step file cannot be read back.
\<close>

definition good_text :: string where
  "good_text = ''class Step1: good''"

definition runs_if_good :: "world \<Rightarrow> string \<Rightarrow> proc_result \<times> (string \<Rightarrow> string option)" where
  "runs_if_good w p =
     (if files w p = Some good_text then (Exited 0 ''done'' [], files w)
      else (Exited 1 [] ''boom'', files w))"

definition never_fixed :: env where
  "never_fixed =
     quiet_env\<lparr>subprocess_run := runs_if_good,
               fix_api := (\<lambda>w e c n pr. Reply ''class Step1: bad'')\<rparr>"

definition fixed_once :: env where
  "fixed_once =
     quiet_env\<lparr>subprocess_run := runs_if_good,
               fix_api := (\<lambda>w e c n pr. Reply good_text)\<rparr>"

definition unreadable :: env where
  "unreadable =
     quiet_env\<lparr>subprocess_run := (\<lambda>w p. (Exited 1 [] ''boom'', files w)),
               fix_api := (\<lambda>w e c n pr. Reply ''class Step1: bad''),
               file_read := (\<lambda>w p. Some ReadIOError)\<rparr>"

text \<open>
  \<open>no_repair\<close>: every execution fails and the oracle answers with the empty text.
  \<open>two_answers\<close>: every execution fails and the oracle returns one text at its first call
  and another one afterwards. \<open>readonly\<close>: every execution fails, the oracle always returns
  the same correction, and the step file cannot be opened for writing.
\<close>

definition no_repair :: env where
  "no_repair =
     quiet_env\<lparr>subprocess_run := (\<lambda>w p. (Exited 1 [] ''boom'', files w)),
               fix_api := (\<lambda>w e c n pr. Reply [])\<rparr>"

definition two_answers :: env where
  "two_answers =
     quiet_env\<lparr>subprocess_run := (\<lambda>w p. (Exited 1 [] ''boom'', files w)),
               fix_api := (\<lambda>w e c n pr. if oracle_calls w \<le> 1 then Reply ''class Step1: first''
                                        else Reply ''class Step1: second'')\<rparr>"

definition readonly :: env where
  "readonly =
     quiet_env\<lparr>subprocess_run := (\<lambda>w p. (Exited 1 [] ''boom'', files w)),
               fix_api := (\<lambda>w e c n pr. Reply ''class Step1: bad''),
               file_write := (\<lambda>w p t. OpenFails)\<rparr>"

text \<open>
  Generated texts, with the trees that \<^verbatim>\<open>ast.parse\<close> gives for them and for their
  normalised forms; \<open>example_parse\<close> knows these texts only.
\<close>

definition step_text :: "nat \<Rightarrow> string" where
  "step_text n = ''class Step'' @ str_nat n @ '':\<newline>    def execute(self):\<newline>        pass''"

definition step_tree :: "nat \<Rightarrow> stmt list" where
  "step_tree n = [ClassDef (''Step'' @ str_nat n) [FunctionDef ''execute'' [OtherStmt []]]]"

definition example_parse :: "string \<Rightarrow> stmt list option" where
  "example_parse =
     map_of
       [(step_text 1, step_tree 1),
        (step_text 1 @ main_code 1, step_tree 1 @ [main_guard]),
        (step_text 2, step_tree 2),
        (step_text 2 @ main_code 2, step_tree 2 @ [main_guard]),
        (''class Foo:\<newline>    pass'', [ClassDef ''Foo'' [OtherStmt []]]),
        (''class Foo:\<newline>    pass'' @ main_code 1, [ClassDef ''Foo'' [OtherStmt []], main_guard]),
        (''print(1)'', [OtherStmt []]),
        (''print(1)'' @ main_code 1, [OtherStmt [], main_guard])]"

text \<open>
  \<open>garbled\<close>: the service writes the steps, every execution fails, and reading a step file
  back raises a \<^verbatim>\<open>UnicodeDecodeError\<close>.
\<close>

definition garbled :: env where
  "garbled =
     quiet_env\<lparr>ast_parse := example_parse,
               generate_api := (\<lambda>w pr d n. Reply (step_text n)),
               subprocess_run := (\<lambda>w p. (Exited 1 [] ''boom'', files w)),
               file_read := (\<lambda>w p. Some (ReadRaises UnicodeError))\<rparr>"

text \<open>
  Remote targets: \<open>example_server\<close> is the target of the sample configuration, \<open>idle_server\<close>
  lists no step, \<open>late_server\<close> lists a step that \<open>example_server\<close> lists too.
  \<open>remote_env\<close>: the service writes the steps and remote commands succeed silently.
  \<open>noisy_remote\<close>: every command, remote or local, ends with status zero and a warning on
  its standard error.
\<close>

definition example_server :: server where
  "example_server =
     \<lparr>hostname = ''remote.server.com'', port = 22, username = ''user'', password = None,
      ssh_key_path = ''/app/.ssh/id_rsa'', execute_remotely = True, steps_to_execute = [2, 3]\<rparr>"

definition idle_server :: server where
  "idle_server = example_server\<lparr>hostname := ''idle.server.com'', steps_to_execute := []\<rparr>"

definition late_server :: server where
  "late_server = example_server\<lparr>hostname := ''late.server.com'', steps_to_execute := [2]\<rparr>"

definition remote_config :: config where
  "remote_config = example_config\<lparr>remote_servers := [idle_server, example_server, late_server]\<rparr>"

definition remote_env :: env where
  "remote_env =
     quiet_env\<lparr>ast_parse := example_parse,
               generate_api := (\<lambda>w pr d n. Reply (step_text n)),
               ssh_connect := (\<lambda>w s. True),
               sftp_put := (\<lambda>w s a b. True),
               exec_command := (\<lambda>w s c. (Streams ''done'' [] 0, files w))\<rparr>"

definition noisy_remote :: env where
  "noisy_remote =
     quiet_env\<lparr>ssh_connect := (\<lambda>w s. True),
               sftp_put := (\<lambda>w s a b. True),
               exec_command := (\<lambda>w s c. (Streams ''done'' ''DeprecationWarning'' 0, files w)),
               subprocess_run := (\<lambda>w p. (Exited 0 ''done'' ''DeprecationWarning'', files w)),
               fix_api := (\<lambda>w e c n pr. Reply ''class Step1: fixed'')\<rparr>"

text \<open>
  The words of the specification for the choice of a back end: the first target, in the
  order of the configuration, whose list of steps holds the ordinal; the step runs
  according to that target, and locally without one.
\<close>

definition first_listing :: "server list \<Rightarrow> nat \<Rightarrow> server option" where
  "first_listing servers n = find (\<lambda>s. int n \<in> set (steps_to_execute s)) servers"

definition chosen_backend :: "server list \<Rightarrow> nat \<Rightarrow> backend" where
  "chosen_backend servers n =
     (case first_listing servers n of
        None \<Rightarrow> Local
      | Some s \<Rightarrow> if execute_remotely s then Remote s else Local)"

text \<open>
  The guard as the specification names it, a statement that makes the text runnable as a
  script: an \<^verbatim>\<open>if\<close> at the top level that compares \<^verbatim>\<open>__name__\<close> with \<^verbatim>\<open>"__main__"\<close> for
  equality, the operands in either order.
\<close>

fun is_script_test :: "expr \<Rightarrow> bool" where
  "is_script_test (Compare left ops comparators) =
     (ops = [ast_Eq]
      \<and> (left = Name ''__name__'' \<and> comparators = [Constant ''__main__'']
         \<or> left = Constant ''__main__'' \<and> comparators = [Name ''__name__'']))"
| "is_script_test _ = False"

fun is_script_guard :: "stmt \<Rightarrow> bool" where
  "is_script_guard (If t body orelse) = is_script_test t"
| "is_script_guard _ = False"

definition has_script_guard :: "stmt list \<Rightarrow> bool" where
  "has_script_guard tree = list_ex is_script_guard tree"

text \<open>
  A step whose guard has \<^verbatim>\<open>"__main__"\<close> on the left, with the tree that \<^verbatim>\<open>ast.parse\<close> gives
  for it.
\<close>

definition reversed_text :: string where
  \<open>reversed_text =
     ''class Step1:\<newline>    def execute(self):\<newline>        pass\<newline>\<newline>if "__main__" == __name__:\<newline>    Step1().execute()''\<close>

definition reversed_tree :: "stmt list" where
  "reversed_tree =
     [ClassDef ''Step1'' [FunctionDef ''execute'' [OtherStmt []]],
      If (Compare (Constant ''__main__'') [ast_Eq] [Name ''__name__'']) [OtherStmt []] []]"

definition reversed_parse :: "string \<Rightarrow> stmt list option" where
  "reversed_parse = map_of [(reversed_text, reversed_tree)]"

text \<open>
  The entry type that the specification asks of a generated text: a class at the top level
  named \<^verbatim>\<open>Step\<close> with the ordinal, with a method \<^verbatim>\<open>execute\<close>.
\<close>

fun is_execute :: "stmt \<Rightarrow> bool" where
  "is_execute (FunctionDef nm body) = (nm = ''execute'')"
| "is_execute _ = False"

fun is_step_entry :: "nat \<Rightarrow> stmt \<Rightarrow> bool" where
  "is_step_entry n (ClassDef nm body) = (nm = ''Step'' @ str_nat n \<and> list_ex is_execute body)"
| "is_step_entry n _ = False"

definition has_step_entry :: "(string \<Rightarrow> stmt list option) \<Rightarrow> string \<Rightarrow> nat \<Rightarrow> bool" where
  "has_step_entry parse text n =
     (case parse text of None \<Rightarrow> False | Some tree \<Rightarrow> list_ex (is_step_entry n) tree)"

text \<open>
  \<open>mute\<close>: the service answers with the empty text. \<open>classless\<close>: it answers with a text
  without a class. \<open>foo_env\<close>: it answers with a class of another name and without
  \<^verbatim>\<open>execute\<close>, and the child that runs the step file ends with code zero.
\<close>

definition mute :: env where
  "mute = quiet_env\<lparr>generate_api := (\<lambda>w pr d n. Reply [])\<rparr>"

definition classless :: env where
  "classless =
     quiet_env\<lparr>ast_parse := example_parse, generate_api := (\<lambda>w pr d n. Reply ''print(1)'')\<rparr>"

definition foo_env :: env where
  "foo_env =
     quiet_env\<lparr>ast_parse := example_parse,
               generate_api := (\<lambda>w pr d n. Reply ''class Foo:\<newline>    pass''),
               subprocess_run := (\<lambda>w p. (Exited 0 ''ok'' [], files w))\<rparr>"

text \<open>
  \<open>parsing_env\<close> reads files and parses the example texts. \<open>two_steps\<close> holds two executed
  steps: the first as it was generated, the second rewritten by a repair into a text
  without a class.
\<close>

definition parsing_env :: env where
  "parsing_env = quiet_env\<lparr>ast_parse := example_parse\<rparr>"

definition two_steps :: world where
  "two_steps =
     \<lparr>files = [''steps/step_001.py'' \<mapsto> step_text 1 @ main_code 1,
               ''steps/step_002.py'' \<mapsto> ''print(1)''],
      trace = []\<rparr>"

section \<open>Facts about the trace\<close>

lemma trace_emit [simp]: "trace (emit e w) = trace w @ [e]"
  by (simp add: emit_def)

lemma files_emit [simp]: "files (emit e w) = files w"
  by (simp add: emit_def)

lemma visits_append [simp]: "visits (xs @ ys) = visits xs @ visits ys"
  by (induction xs rule: visits.induct) auto

lemma backends_append [simp]: "backends (xs @ ys) = backends xs @ backends ys"
  by (induction xs rule: backends.induct) auto

lemma replicate_ApiRequest [simp]:
  "filter is_run (replicate k ApiRequest) = []"
  "filter is_fix (replicate k ApiRequest) = []"
  "filter is_update (replicate k ApiRequest) = []"
  "visits (replicate k ApiRequest) = []"
  "backends (replicate k ApiRequest) = []"
  by (induction k) auto

lemma emit_counts [simp]:
  "executions (emit e w) = executions w + (if is_run e then 1 else 0)"
  "oracle_calls (emit e w) = oracle_calls w + (if is_fix e then 1 else 0)"
  "updates (emit e w) = updates w + (if is_update e then 1 else 0)"
  by (auto simp: executions_def oracle_calls_def updates_def)

lemma counts_files_update [simp]:
  "executions (w\<lparr>files := fs\<rparr>) = executions w"
  "oracle_calls (w\<lparr>files := fs\<rparr>) = oracle_calls w"
  "updates (w\<lparr>files := fs\<rparr>) = updates w"
  by (simp_all add: executions_def oracle_calls_def updates_def)

lemma with_backoff_trace:
  "\<exists>k. trace (snd (with_backoff resolves request retries w)) = trace w @ replicate k ApiRequest"
proof (induction resolves request retries w rule: with_backoff.induct)
  case (1 resolves request retries w)
  show ?case
  proof (cases "retries < 3")
    case False
    then show ?thesis by (subst with_backoff.simps) simp
  next
    case True
    show ?thesis
    proof (cases "request w = RateLimited \<and> resolves")
      case True
      with "1.IH" \<open>retries < 3\<close> obtain k where
        "trace (snd (with_backoff resolves request (retries + 1) (emit ApiRequest w)))
           = trace (emit ApiRequest w) @ replicate k ApiRequest" by blast
      then have "trace (snd (with_backoff resolves request retries w))
                   = trace w @ replicate (Suc k) ApiRequest"
        using True \<open>retries < 3\<close> by (subst with_backoff.simps) simp
      then show ?thesis by blast
    next
      case False
      then have "trace (snd (with_backoff resolves request retries w))
                   = trace w @ replicate 1 ApiRequest"
        using \<open>retries < 3\<close> by (subst with_backoff.simps) (auto split: api_result.splits)
      then show ?thesis by blast
    qed
  qed
qed

lemma with_backoff_files [simp]:
  "files (snd (with_backoff resolves request retries w)) = files w"
  by (induction resolves request retries w rule: with_backoff.induct)
     (subst with_backoff.simps, auto split: api_result.splits)

lemma with_backoff_counts [simp]:
  "executions (snd (with_backoff resolves request retries w)) = executions w"
  "oracle_calls (snd (with_backoff resolves request retries w)) = oracle_calls w"
  "updates (snd (with_backoff resolves request retries w)) = updates w"
  "visits (trace (snd (with_backoff resolves request retries w))) = visits (trace w)"
  "backends (trace (snd (with_backoff resolves request retries w))) = backends (trace w)"
  using with_backoff_trace[of resolves request retries w]
  by (auto simp: executions_def oracle_calls_def updates_def)

lemma write_file_trace [simp]: "trace (snd (write_file E w path text)) = trace w"
  by (simp add: write_file_def split: write_outcome.splits)

lemma run_step_trace [simp]:
  "trace (snd (run_step E w p r sc)) = trace w @ [RunStep p (backend_of r sc)]"
  by (auto simp: run_step_def backend_of_def Let_def
           split: bool.splits option.splits prod.splits proc_result.splits sum.splits)

lemma run_step_counts [simp]:
  "executions (snd (run_step E w p r sc)) = Suc (executions w)"
  "oracle_calls (snd (run_step E w p r sc)) = oracle_calls w"
  "updates (snd (run_step E w p r sc)) = updates w"
  by (auto simp: executions_def oracle_calls_def updates_def)

lemma fix_code_trace:
  "\<exists>k. trace (snd (fix_code_with_gpt4 E w err code n pr))
          = trace w @ FixRequest n # replicate k ApiRequest"
  using with_backoff_trace[of "has_error_module E" "\<lambda>w'. fix_api E w' err code n pr" 0
          "emit (FixRequest n) w"]
  by (auto simp: fix_code_with_gpt4_def)

lemma fix_code_files [simp]: "files (snd (fix_code_with_gpt4 E w err code n pr)) = files w"
  by (simp add: fix_code_with_gpt4_def)

lemma fix_code_counts [simp]:
  "executions (snd (fix_code_with_gpt4 E w err code n pr)) = executions w"
  "oracle_calls (snd (fix_code_with_gpt4 E w err code n pr)) = Suc (oracle_calls w)"
  "updates (snd (fix_code_with_gpt4 E w err code n pr)) = updates w"
  by (simp_all add: fix_code_with_gpt4_def)

lemma update_step_code_trace [simp]:
  "trace (snd (update_step_code E w p c)) = trace w @ [UpdateStep p c]"
  by (simp add: update_step_code_def split: prod.splits sum.splits)
     (metis snd_conv trace_emit write_file_trace)+

lemma update_step_code_counts [simp]:
  "executions (snd (update_step_code E w p c)) = executions w"
  "oracle_calls (snd (update_step_code E w p c)) = oracle_calls w"
  "updates (snd (update_step_code E w p c)) = Suc (updates w)"
  by (simp_all add: executions_def oracle_calls_def updates_def)

lemma update_step_code_files:
  "files (snd (update_step_code E w p c)) =
     (case file_write E (emit (UpdateStep p c) w) p c of
        Written \<Rightarrow> (files w)(p \<mapsto> c)
      | OpenFails \<Rightarrow> files w
      | WriteFails left \<Rightarrow> (files w)(p \<mapsto> left)
      | WriteRaises s left \<Rightarrow> (files w)(p \<mapsto> left))"
  by (simp add: update_step_code_def write_file_def split: write_outcome.splits)

lemma efs_loop_exhausted:
  "\<not> retries < maxr \<Longrightarrow>
   efs_loop E p n pr maxr r sc retries w = (Inr False, emit (MaxRetriesExceeded n) w)"
  by (subst efs_loop.simps) simp

lemma efs_loop_pass:
  "retries < maxr \<Longrightarrow>
   efs_loop E p n pr maxr r sc retries w =
     (case loop_pass E p n pr r sc w of
        Leaves res \<Rightarrow> res
      | GoesOn w3 \<Rightarrow> efs_loop E p n pr maxr r sc (retries + 1) w3)"
  by (subst efs_loop.simps)
     (simp add: loop_pass_def split: prod.splits sum.splits)

lemma run_step_traceD:
  "run_step E w p r sc = (a, w1) \<Longrightarrow> trace w1 = trace w @ [RunStep p (backend_of r sc)]"
  using run_step_trace[of E w p r sc] by simp

lemma fix_code_traceD:
  "fix_code_with_gpt4 E w1 err code n pr = (a, w2) \<Longrightarrow>
   \<exists>k. trace w2 = trace w1 @ FixRequest n # replicate k ApiRequest"
  using fix_code_trace[of E w1 err code n pr] by simp

lemma update_step_code_traceD:
  "update_step_code E w2 p c = (a, w3) \<Longrightarrow> trace w3 = trace w2 @ [UpdateStep p c]"
  using update_step_code_trace[of E w2 p c] by simp

lemma is_repair_replicate [simp]: "list_all is_repair (replicate k ApiRequest)"
  by (induction k) auto

lemma is_repair_event:
  "is_repair e \<Longrightarrow> visits (e # es) = visits es"
  "is_repair e \<Longrightarrow> backends (e # es) = backends es"
  "is_repair e \<Longrightarrow> \<not> is_run e"
  "is_repair e \<Longrightarrow> e \<noteq> MaxRetriesExceeded m"
  by (cases e; simp)+

lemma is_repair_facts:
  "list_all is_repair es \<Longrightarrow> visits es = []"
  "list_all is_repair es \<Longrightarrow> backends es = []"
  "list_all is_repair es \<Longrightarrow> filter is_run es = []"
  "list_all is_repair es \<Longrightarrow> MaxRetriesExceeded m \<notin> set es"
  by (induction es) (auto simp: is_repair_event)

lemma loop_pass_GoesOn_iff:
  "loop_pass E p n pr r sc w = GoesOn w3 \<longleftrightarrow>
     (\<exists>err w1 code c w2.
        run_step E w p r sc = (Inr (False, err), w1)
      \<and> get_step_code E w1 p = Inr code \<and> code \<noteq> []
      \<and> fix_code_with_gpt4 E w1 err code n pr = (Inr (Some c), w2) \<and> c \<noteq> []
      \<and> update_step_code E w2 p c = (Inr (), w3))"
  by (auto simp: loop_pass_def falsy_def split: prod.splits sum.splits if_splits option.splits)

lemma loop_pass_trace:
  "\<exists>es. trace (pass_world (loop_pass E p n pr r sc w)) = trace w @ RunStep p (backend_of r sc) # es
      \<and> list_all is_repair es"
proof -
  obtain a w1 where run: "run_step E w p r sc = (a, w1)" by (cases "run_step E w p r sc")
  note t1 = run_step_traceD[OF run]
  show ?thesis
  proof (cases a)
    case (Inl s)
    then have "pass_world (loop_pass E p n pr r sc w) = w1"
      using run by (simp add: loop_pass_def)
    then show ?thesis using t1 by simp
  next
    case (Inr se)
    obtain success err where se: "se = (success, err)" by (cases se)
    show ?thesis
    proof (cases "success \<or> (\<exists>s. get_step_code E w1 p = Inl s) \<or> get_step_code E w1 p = Inr []")
      case True
      then have "pass_world (loop_pass E p n pr r sc w) = w1"
        using run Inr se by (auto simp: loop_pass_def split: sum.splits)
      then show ?thesis using t1 by simp
    next
      case False
      then obtain code where code: "\<not> success" "get_step_code E w1 p = Inr code" "code \<noteq> []"
        by (cases "get_step_code E w1 p") auto
      obtain b w2 where fx: "fix_code_with_gpt4 E w1 err code n pr = (b, w2)"
        by (cases "fix_code_with_gpt4 E w1 err code n pr")
      from fix_code_traceD[OF fx] obtain k where
        t2: "trace w2 = trace w1 @ FixRequest n # replicate k ApiRequest" by blast
      show ?thesis
      proof (cases "\<exists>cc. b = Inr cc \<and> \<not> falsy cc")
        case False
        then have "pass_world (loop_pass E p n pr r sc w) = w2"
          using run Inr se code fx by (auto simp: loop_pass_def split: sum.splits)
        then have "trace (pass_world (loop_pass E p n pr r sc w))
                     = trace w @ RunStep p (backend_of r sc) # (FixRequest n # replicate k ApiRequest)"
          using t1 t2 by simp
        moreover have "list_all is_repair (FixRequest n # replicate k ApiRequest)" by simp
        ultimately show ?thesis by blast
      next
        case True
        then obtain cc where cc: "b = Inr cc" "\<not> falsy cc" by blast
        obtain u w3 where up: "update_step_code E w2 p (the cc) = (u, w3)"
          by (cases "update_step_code E w2 p (the cc)")
        note t3 = update_step_code_traceD[OF up]
        have "pass_world (loop_pass E p n pr r sc w) = w3"
          using run Inr se code fx cc up by (auto simp: loop_pass_def split: sum.splits)
        then have "trace (pass_world (loop_pass E p n pr r sc w))
                     = trace w @ RunStep p (backend_of r sc)
                         # (FixRequest n # replicate k ApiRequest @ [UpdateStep p (the cc)])"
          using t1 t2 t3 by simp
        moreover have "list_all is_repair (FixRequest n # replicate k ApiRequest @ [UpdateStep p (the cc)])"
          by simp
        ultimately show ?thesis by blast
      qed
    qed
  qed
qed

lemma loop_pass_executions [simp]:
  "executions (pass_world (loop_pass E p n pr r sc w)) = Suc (executions w)"
proof -
  obtain es where "trace (pass_world (loop_pass E p n pr r sc w))
      = trace w @ RunStep p (backend_of r sc) # es" "list_all is_repair es"
    using loop_pass_trace by blast
  then show ?thesis by (simp add: executions_def is_repair_facts)
qed

lemma efs_loop_trace:
  "nat (maxr - retries) = d \<Longrightarrow>
   \<exists>es. trace (snd (efs_loop E p n pr maxr r sc retries w)) = trace w @ es
      \<and> visits es = [] \<and> (\<forall>b\<in>set (backends es). b = backend_of r sc)
      \<and> length (filter is_run es) \<le> d"
proof (induction d arbitrary: retries w)
  case 0
  then have "\<not> retries < maxr" by simp
  then have "trace (snd (efs_loop E p n pr maxr r sc retries w)) = trace w @ [MaxRetriesExceeded n]"
    by (simp add: efs_loop_exhausted)
  then show ?case by auto
next
  case (Suc d)
  have lt: "retries < maxr" using Suc.prems by simp
  obtain es where es: "trace (pass_world (loop_pass E p n pr r sc w))
      = trace w @ RunStep p (backend_of r sc) # es" "list_all is_repair es"
    using loop_pass_trace by blast
  show ?case
  proof (cases "loop_pass E p n pr r sc w")
    case (Leaves res)
    then have "snd (efs_loop E p n pr maxr r sc retries w) = pass_world (loop_pass E p n pr r sc w)"
      using efs_loop_pass[OF lt, of E p n pr r sc w] by simp
    then have "trace (snd (efs_loop E p n pr maxr r sc retries w))
                 = trace w @ (RunStep p (backend_of r sc) # es)"
      using es(1) by simp
    moreover have "visits (RunStep p (backend_of r sc) # es) = []"
      "\<forall>b\<in>set (backends (RunStep p (backend_of r sc) # es)). b = backend_of r sc"
      "length (filter is_run (RunStep p (backend_of r sc) # es)) \<le> Suc d"
      using es(2) by (simp_all add: is_repair_facts)
    ultimately show ?thesis by blast
  next
    case (GoesOn w3)
    then have step: "efs_loop E p n pr maxr r sc retries w = efs_loop E p n pr maxr r sc (retries + 1) w3"
      using efs_loop_pass[OF lt, of E p n pr r sc w] by simp
    have t3: "trace w3 = trace w @ RunStep p (backend_of r sc) # es" using es(1) GoesOn by simp
    have d: "nat (maxr - (retries + 1)) = d" using Suc.prems by simp
    from Suc.IH[OF d, of w3] obtain fs where fs:
      "trace (snd (efs_loop E p n pr maxr r sc (retries + 1) w3)) = trace w3 @ fs"
      "visits fs = []" "\<forall>b\<in>set (backends fs). b = backend_of r sc"
      "length (filter is_run fs) \<le> d"
      by blast
    have "trace (snd (efs_loop E p n pr maxr r sc retries w))
            = trace w @ (RunStep p (backend_of r sc) # es @ fs)"
      using step fs(1) t3 by simp
    moreover have "visits (RunStep p (backend_of r sc) # es @ fs) = []"
      "\<forall>b\<in>set (backends (RunStep p (backend_of r sc) # es @ fs)). b = backend_of r sc"
      "length (filter is_run (RunStep p (backend_of r sc) # es @ fs)) \<le> Suc d"
      using es(2) fs(2,3,4) by (simp_all add: is_repair_facts)
    ultimately show ?thesis by blast
  qed
qed

lemma loop_pass_GoesOn_counts:
  assumes "loop_pass E p n pr r sc w = GoesOn w3"
  shows "executions w3 = Suc (executions w)" "oracle_calls w3 = Suc (oracle_calls w)"
    "updates w3 = Suc (updates w)"
proof -
  from assms obtain err w1 code c w2 where
    a: "run_step E w p r sc = (Inr (False, err), w1)"
       "fix_code_with_gpt4 E w1 err code n pr = (Inr (Some c), w2)"
       "update_step_code E w2 p c = (Inr (), w3)"
    unfolding loop_pass_GoesOn_iff by blast
  have w1: "w1 = snd (run_step E w p r sc)" using a(1) by simp
  have w2: "w2 = snd (fix_code_with_gpt4 E w1 err code n pr)" using a(2) by simp
  have w3: "w3 = snd (update_step_code E w2 p c)" using a(3) by simp
  show "executions w3 = Suc (executions w)" "oracle_calls w3 = Suc (oracle_calls w)"
    "updates w3 = Suc (updates w)"
    by (simp_all add: w1 w2 w3)
qed

lemma efs_loop_rounds:
  "(\<forall>j w. j < m \<longrightarrow> J j w \<longrightarrow> (\<exists>w3. loop_pass E p n pr r sc w = GoesOn w3 \<and> J (Suc j) w3)) \<Longrightarrow>
   int m \<le> maxr - retries \<Longrightarrow> J 0 w \<Longrightarrow>
   \<exists>w'. efs_loop E p n pr maxr r sc retries w = efs_loop E p n pr maxr r sc (retries + int m) w'
      \<and> J m w' \<and> executions w' = executions w + m \<and> oracle_calls w' = oracle_calls w + m
      \<and> updates w' = updates w + m"
proof (induction m arbitrary: J retries w)
  case 0
  then show ?case by auto
next
  case (Suc m)
  have lt: "retries < maxr" using Suc.prems(2) by simp
  obtain w3 where w3: "loop_pass E p n pr r sc w = GoesOn w3" "J (Suc 0) w3"
    using Suc.prems(1,3) by blast
  have step: "efs_loop E p n pr maxr r sc retries w = efs_loop E p n pr maxr r sc (retries + 1) w3"
    using efs_loop_pass[OF lt, of E p n pr r sc w] w3(1) by simp
  note c3 = loop_pass_GoesOn_counts[OF w3(1)]
  have hyp: "\<forall>j w. j < m \<longrightarrow> J (Suc j) w
               \<longrightarrow> (\<exists>w3. loop_pass E p n pr r sc w = GoesOn w3 \<and> J (Suc (Suc j)) w3)"
    using Suc.prems(1) by simp
  have le: "int m \<le> maxr - (retries + 1)" using Suc.prems(2) by simp
  from Suc.IH[of "\<lambda>j. J (Suc j)" "retries + 1" w3, OF hyp le w3(2)] obtain w' where
    IH: "efs_loop E p n pr maxr r sc (retries + 1) w3
           = efs_loop E p n pr maxr r sc (retries + 1 + int m) w'"
      "J (Suc m) w'" "executions w' = executions w3 + m" "oracle_calls w' = oracle_calls w3 + m"
      "updates w' = updates w3 + m"
    by blast
  have "retries + 1 + int m = retries + int (Suc m)" by simp
  then have "efs_loop E p n pr maxr r sc retries w
               = efs_loop E p n pr maxr r sc (retries + int (Suc m)) w'"
    using step IH(1) by metis
  then show ?case using IH(2-5) c3 by auto
qed

lemma efs_loop_bound:
  "executions (snd (efs_loop E p n pr maxr r sc retries w)) \<le> executions w + nat (maxr - retries)"
proof -
  obtain es where es: "trace (snd (efs_loop E p n pr maxr r sc retries w)) = trace w @ es"
      "length (filter is_run es) \<le> nat (maxr - retries)"
    using efs_loop_trace[of maxr retries "nat (maxr - retries)" E p n pr r sc w] by blast
  then show ?thesis by (simp add: executions_def)
qed

lemma fix_reply:
  "fix_api E = (\<lambda>w e c n pr. Reply s) \<Longrightarrow>
   fix_code_with_gpt4 E w err code n pr = (Inr (Some s), emit ApiRequest (emit (FixRequest n) w))"
  by (simp add: fix_code_with_gpt4_def with_backoff.simps)

lemma local_run:
  "subprocess_run E w p = (Exited code out err, fs) \<Longrightarrow>
   run_step E w p False None
     = (Inr (if code = 0 then (True, out) else (False, err)), (emit (RunStep p Local) w)\<lparr>files := fs\<rparr>)"
  by (simp add: run_step_def Let_def)

lemma read_back:
  "file_read E w p = None \<Longrightarrow> files w p = Some t \<Longrightarrow> get_step_code E w p = Inr t"
  by (simp add: get_step_code_def read_file_def)

lemma update_written:
  "file_write E (emit (UpdateStep p c) w) p c = Written \<Longrightarrow>
   update_step_code E w p c
     = (Inr (), (emit (UpdateStep p c) w)\<lparr>files := (files w)(p \<mapsto> c)\<rparr>)"
  by (simp add: update_step_code_def write_file_def)

lemma never_fixed_pass:
  assumes "files w ''steps/step_001.py'' = Some t" "t \<noteq> []" "t \<noteq> good_text"
  shows "\<exists>err w1 code c w2 w3.
            run_step never_fixed w ''steps/step_001.py'' False None = (Inr (False, err), w1)
          \<and> get_step_code never_fixed w1 ''steps/step_001.py'' = Inr code \<and> code \<noteq> []
          \<and> fix_code_with_gpt4 never_fixed w1 err code 1 ''p'' = (Inr (Some c), w2) \<and> c \<noteq> []
          \<and> update_step_code never_fixed w2 ''steps/step_001.py'' c = (Inr (), w3)
          \<and> (\<exists>t'. files w3 ''steps/step_001.py'' = Some t' \<and> t' \<noteq> [] \<and> t' \<noteq> good_text)"
proof -
  let ?p = "''steps/step_001.py''"
  let ?w1 = "(emit (RunStep ?p Local) w)\<lparr>files := files w\<rparr>"
  let ?w2 = "emit ApiRequest (emit (FixRequest 1) ?w1)"
  let ?c = "''class Step1: bad''"
  let ?w3 = "(emit (UpdateStep ?p ?c) ?w2)\<lparr>files := (files ?w2)(?p \<mapsto> ?c)\<rparr>"
  have "subprocess_run never_fixed w ?p = (Exited 1 [] ''boom'', files w)"
    using assms by (simp add: never_fixed_def quiet_env_def runs_if_good_def)
  from local_run[OF this] have run: "run_step never_fixed w ?p False None = (Inr (False, ''boom''), ?w1)"
    by simp
  have "file_read never_fixed ?w1 ?p = None" by (simp add: never_fixed_def quiet_env_def)
  from read_back[OF this, of t] assms(1) have rd: "get_step_code never_fixed ?w1 ?p = Inr t"
    by simp
  have "fix_api never_fixed = (\<lambda>w e c n pr. Reply ?c)" by (simp add: never_fixed_def quiet_env_def)
  from fix_reply[OF this] have fx: "fix_code_with_gpt4 never_fixed ?w1 ''boom'' t 1 ''p'' = (Inr (Some ?c), ?w2)"
    by simp
  have "file_write never_fixed (emit (UpdateStep ?p ?c) ?w2) ?p ?c = Written"
    by (simp add: never_fixed_def quiet_env_def)
  from update_written[OF this] have up: "update_step_code never_fixed ?w2 ?p ?c = (Inr (), ?w3)" .
  have "files ?w3 ?p = Some ?c \<and> ?c \<noteq> [] \<and> ?c \<noteq> good_text" by (simp add: good_text_def)
  then show ?thesis using run rd fx up assms(2) by blast
qed

lemma fixed_once_pass:
  assumes "files w ''steps/step_001.py'' = Some ''class Step1: pass''"
  shows "\<exists>err w1 code c w2 w3.
            run_step fixed_once w ''steps/step_001.py'' False None = (Inr (False, err), w1)
          \<and> get_step_code fixed_once w1 ''steps/step_001.py'' = Inr code \<and> code \<noteq> []
          \<and> fix_code_with_gpt4 fixed_once w1 err code 1 ''p'' = (Inr (Some c), w2) \<and> c \<noteq> []
          \<and> update_step_code fixed_once w2 ''steps/step_001.py'' c = (Inr (), w3)
          \<and> files w3 ''steps/step_001.py'' = Some good_text"
proof -
  let ?p = "''steps/step_001.py''"
  let ?w1 = "(emit (RunStep ?p Local) w)\<lparr>files := files w\<rparr>"
  let ?w2 = "emit ApiRequest (emit (FixRequest 1) ?w1)"
  let ?w3 = "(emit (UpdateStep ?p good_text) ?w2)\<lparr>files := (files ?w2)(?p \<mapsto> good_text)\<rparr>"
  have "subprocess_run fixed_once w ?p = (Exited 1 [] ''boom'', files w)"
    using assms by (simp add: fixed_once_def quiet_env_def runs_if_good_def good_text_def)
  from local_run[OF this] have run: "run_step fixed_once w ?p False None = (Inr (False, ''boom''), ?w1)"
    by simp
  have "file_read fixed_once ?w1 ?p = None" by (simp add: fixed_once_def quiet_env_def)
  from read_back[OF this, of "''class Step1: pass''"] assms
  have rd: "get_step_code fixed_once ?w1 ?p = Inr ''class Step1: pass''" by simp
  have "fix_api fixed_once = (\<lambda>w e c n pr. Reply good_text)" by (simp add: fixed_once_def quiet_env_def)
  from fix_reply[OF this]
  have fx: "fix_code_with_gpt4 fixed_once ?w1 ''boom'' ''class Step1: pass'' 1 ''p'' = (Inr (Some good_text), ?w2)"
    by simp
  have "file_write fixed_once (emit (UpdateStep ?p good_text) ?w2) ?p good_text = Written"
    by (simp add: fixed_once_def quiet_env_def)
  from update_written[OF this] have up: "update_step_code fixed_once ?w2 ?p good_text = (Inr (), ?w3)" .
  have "files ?w3 ?p = Some good_text" "good_text \<noteq> []" "''class Step1: pass'' \<noteq> []"
    by (simp_all add: good_text_def)
  then show ?thesis using run rd fx up by blast
qed

lemma fixed_once_success:
  assumes "files w ''steps/step_001.py'' = Some good_text"
  shows "\<exists>out w1. run_step fixed_once w ''steps/step_001.py'' False None = (Inr (True, out), w1)"
proof -
  have "subprocess_run fixed_once w ''steps/step_001.py'' = (Exited 0 ''done'' [], files w)"
    using assms by (simp add: fixed_once_def quiet_env_def runs_if_good_def)
  from local_run[OF this] show ?thesis by simp
qed

lemma unreadable_run:
  "execute_and_fix_step unreadable stored_world ''steps/step_001.py'' 1 ''p'' 2 False None
     = (Inr False, emit (RunStep ''steps/step_001.py'' Local) stored_world)"
  by (simp add: execute_and_fix_step_def efs_loop.simps run_step_def unreadable_def quiet_env_def
        get_step_code_def read_file_def Let_def emit_def stored_world_def)

lemma loop_pass_last:
  "last (trace (pass_world (loop_pass E p n pr r sc w))) \<noteq> MaxRetriesExceeded m"
proof -
  obtain es where es: "trace (pass_world (loop_pass E p n pr r sc w))
      = trace w @ RunStep p (backend_of r sc) # es" "list_all is_repair es"
    using loop_pass_trace by blast
  have "last (RunStep p (backend_of r sc) # es) \<in> set (RunStep p (backend_of r sc) # es)"
    by (rule last_in_set) simp
  moreover have "MaxRetriesExceeded m \<notin> set (RunStep p (backend_of r sc) # es)"
    using es(2) by (simp add: is_repair_facts)
  ultimately show ?thesis using es(1) by auto
qed

lemma efs_loop_abandoned:
  "nat (maxr - retries) = d \<Longrightarrow>
   efs_loop E p n pr maxr r sc retries w = (res, w') \<Longrightarrow>
   last (trace w') = MaxRetriesExceeded n \<Longrightarrow>
     res = Inr False \<and> executions w' = executions w + d \<and> oracle_calls w' = oracle_calls w + d
       \<and> updates w' = updates w + d
       \<and> (retries < maxr \<longrightarrow>
            (\<exists>wr err w1 code cl w2 w3.
               run_step E wr p r sc = (Inr (False, err), w1)
             \<and> get_step_code E w1 p = Inr code
             \<and> fix_code_with_gpt4 E w1 err code n pr = (Inr (Some cl), w2) \<and> cl \<noteq> []
             \<and> update_step_code E w2 p cl = (Inr (), w3)
             \<and> w' = emit (MaxRetriesExceeded n) w3))"
proof (induction d arbitrary: retries w)
  case 0
  then have nlt: "\<not> retries < maxr" by simp
  then have "res = Inr False" "w' = emit (MaxRetriesExceeded n) w"
    using 0 by (simp_all add: efs_loop_exhausted)
  then show ?case using nlt by simp
next
  case (Suc d)
  have lt: "retries < maxr" using Suc.prems(1) by simp
  show ?case
  proof (cases "loop_pass E p n pr r sc w")
    case (Leaves out)
    then have "w' = pass_world (loop_pass E p n pr r sc w)"
      using efs_loop_pass[OF lt, of E p n pr r sc w] Suc.prems(2) by auto
    then show ?thesis using loop_pass_last[of E p n pr r sc w n] Suc.prems(3) by simp
  next
    case (GoesOn w3)
    then have step: "efs_loop E p n pr maxr r sc (retries + 1) w3 = (res, w')"
      using efs_loop_pass[OF lt, of E p n pr r sc w] Suc.prems(2) by simp
    note c3 = loop_pass_GoesOn_counts[OF GoesOn]
    have d: "nat (maxr - (retries + 1)) = d" using Suc.prems(1) by simp
    note IH = Suc.IH[OF d step Suc.prems(3)]
    have counts: "res = Inr False" "executions w' = executions w + Suc d"
      "oracle_calls w' = oracle_calls w + Suc d" "updates w' = updates w + Suc d"
      using IH c3 by simp_all
    have lastpart: "\<exists>wr err w1 code cl w2 w3.
               run_step E wr p r sc = (Inr (False, err), w1)
             \<and> get_step_code E w1 p = Inr code
             \<and> fix_code_with_gpt4 E w1 err code n pr = (Inr (Some cl), w2) \<and> cl \<noteq> []
             \<and> update_step_code E w2 p cl = (Inr (), w3)
             \<and> w' = emit (MaxRetriesExceeded n) w3"
    proof (cases "retries + 1 < maxr")
      case True
      then show ?thesis using IH by simp
    next
      case False
      then have w': "w' = emit (MaxRetriesExceeded n) w3"
        using step by (simp add: efs_loop_exhausted)
      from GoesOn obtain err w1 code c w2 where
        "run_step E w p r sc = (Inr (False, err), w1)" "get_step_code E w1 p = Inr code"
        "fix_code_with_gpt4 E w1 err code n pr = (Inr (Some c), w2)" "c \<noteq> []"
        "update_step_code E w2 p c = (Inr (), w3)"
        unfolding loop_pass_GoesOn_iff by blast
      then show ?thesis using w' by blast
    qed
    show ?thesis using counts lastpart by blast
  qed
qed

lemma no_repair_evals:
  "run_step no_repair stored_world ''steps/step_001.py'' False None
     = (Inr (False, ''boom''), emit (RunStep ''steps/step_001.py'' Local) stored_world)"
  "get_step_code no_repair (emit (RunStep ''steps/step_001.py'' Local) stored_world)
     ''steps/step_001.py'' = Inr ''class Step1: pass''"
  "fix_code_with_gpt4 no_repair (emit (RunStep ''steps/step_001.py'' Local) stored_world) ''boom''
     ''class Step1: pass'' 1 ''p''
     = (Inr (Some []), emit ApiRequest (emit (FixRequest 1)
          (emit (RunStep ''steps/step_001.py'' Local) stored_world)))"
  by (simp_all add: run_step_def get_step_code_def read_file_def fix_code_with_gpt4_def
        with_backoff.simps no_repair_def quiet_env_def stored_world_def emit_def Let_def)

lemma two_answers_run:
  "execute_and_fix_step two_answers stored_world ''steps/step_001.py'' 1 ''p'' 2 False None
     = (Inr False,
        \<lparr>files = [''steps/step_001.py'' \<mapsto> ''class Step1: second''],
         trace = [RunStep ''steps/step_001.py'' Local, FixRequest 1, ApiRequest,
                  UpdateStep ''steps/step_001.py'' ''class Step1: first'',
                  RunStep ''steps/step_001.py'' Local, FixRequest 1, ApiRequest,
                  UpdateStep ''steps/step_001.py'' ''class Step1: second'',
                  MaxRetriesExceeded 1]\<rparr>)"
  by (simp add: execute_and_fix_step_def efs_loop.simps run_step_def two_answers_def
        quiet_env_def stored_world_def get_step_code_def read_file_def fix_code_with_gpt4_def
        with_backoff.simps falsy_def update_step_code_def write_file_def emit_def Let_def
        oracle_calls_def)

lemma readonly_run:
  "execute_and_fix_step readonly stored_world ''steps/step_001.py'' 1 ''p'' 2 False None
     = (Inr False,
        \<lparr>files = [''steps/step_001.py'' \<mapsto> ''class Step1: pass''],
         trace = [RunStep ''steps/step_001.py'' Local, FixRequest 1, ApiRequest,
                  UpdateStep ''steps/step_001.py'' ''class Step1: bad'',
                  RunStep ''steps/step_001.py'' Local, FixRequest 1, ApiRequest,
                  UpdateStep ''steps/step_001.py'' ''class Step1: bad'',
                  MaxRetriesExceeded 1]\<rparr>)"
  by (simp add: execute_and_fix_step_def efs_loop.simps run_step_def readonly_def
        quiet_env_def stored_world_def get_step_code_def read_file_def fix_code_with_gpt4_def
        with_backoff.simps falsy_def update_step_code_def write_file_def emit_def Let_def)

lemma execute_and_fix_step_trace:
  "\<exists>es. trace (snd (execute_and_fix_step E w p n pr maxr r sc)) = trace w @ es
      \<and> visits es = [] \<and> (\<forall>b\<in>set (backends es). b = backend_of r sc)"
  using efs_loop_trace[of maxr 0 "nat maxr" E p n pr r sc w]
  by (auto simp: execute_and_fix_step_def)

lemma generate_step_code_trace:
  "\<exists>k. trace (snd (generate_step_code E w step pr n)) = trace w @ replicate k ApiRequest"
  unfolding generate_step_code_def by (rule with_backoff_trace)

lemma save_step_code_trace [simp]:
  "trace (snd (save_step_code E cfg w n code)) = trace w"
proof -
  have "snd (save_step_code E cfg w n code)
          = snd (write_file E w (path_join (steps_directory cfg) (''step_'' @ pad3 (str_nat n) @ ''.py'')) code)"
    by (simp add: save_step_code_def Let_def split: prod.splits sum.splits bool.splits)
  then show ?thesis by simp
qed

lemma process_step_shape:
  "\<exists>res w' es. process_step E cfg pr step (ex, n) w0 = (res, w')
      \<and> trace w' = trace w0 @ Visit n # es \<and> visits es = []
      \<and> (\<forall>b\<in>set (backends es). b = backend_of (fst (select_backend (remote_servers cfg) n))
                                        (snd (select_backend (remote_servers cfg) n)))
      \<and> (\<forall>ex' n'. res = Inr (ex', n') \<longrightarrow> n' = n + 1)"
proof -
  let ?sel = "select_backend (remote_servers cfg) n"
  let ?b = "backend_of (fst ?sel) (snd ?sel)"
  obtain gr gw where g: "generate_step_code E (emit (Visit n) w0) step pr n = (gr, gw)"
    by (cases "generate_step_code E (emit (Visit n) w0) step pr n")
  obtain k where "trace (snd (generate_step_code E (emit (Visit n) w0) step pr n))
      = trace (emit (Visit n) w0) @ replicate k ApiRequest"
    using generate_step_code_trace by blast
  then have tg: "trace gw = trace w0 @ Visit n # replicate k ApiRequest" using g by simp
  have g0: "visits (replicate k ApiRequest) = []"
    "\<forall>b\<in>set (backends (replicate k ApiRequest)). b = ?b"
    by simp_all
  show ?thesis
  proof (cases gr)
    case (Inl s)
    then have "process_step E cfg pr step (ex, n) w0 = (Inl s, gw)"
      using g by (simp add: process_step_def)
    then show ?thesis using tg g0 by blast
  next
    case (Inr generated)
    show ?thesis
    proof (cases "falsy generated")
      case True
      then have "process_step E cfg pr step (ex, n) w0 = (Inr (ex, n + 1), gw)"
        using g Inr by (simp add: process_step_def)
      then show ?thesis using tg g0 by blast
    next
      case gen: False
      let ?code = "add_main_block (ast_parse E) (the generated) n"
      obtain sr sw where s: "save_step_code E cfg gw n ?code = (sr, sw)"
        by (cases "save_step_code E cfg gw n ?code")
      have "trace (snd (save_step_code E cfg gw n ?code)) = trace gw" by simp
      then have ts: "trace sw = trace w0 @ Visit n # replicate k ApiRequest" using s tg by simp
      show ?thesis
      proof (cases sr)
        case (Inl s')
        then have "process_step E cfg pr step (ex, n) w0 = (Inl s', sw)"
          using g Inr gen s by (simp add: process_step_def Let_def)
        then show ?thesis using ts g0 by blast
      next
        case saved: (Inr step_path)
        show ?thesis
        proof (cases "falsy step_path \<or> falsy (extract_class_name (ast_parse E) ?code)")
          case True
          then have "process_step E cfg pr step (ex, n) w0 = (Inr (ex, n + 1), sw)"
            using g Inr gen s saved by (auto simp: process_step_def Let_def)
          then show ?thesis using ts g0 by blast
        next
          case ok: False
          let ?x = "execute_and_fix_step E sw (the step_path) n pr (max_retries cfg)
                      (fst ?sel) (snd ?sel)"
          obtain xr xw where x: "?x = (xr, xw)" by (cases ?x)
          obtain es where "trace (snd ?x) = trace sw @ es" "visits es = []"
            "\<forall>b\<in>set (backends es). b = ?b"
            using execute_and_fix_step_trace by blast
          then have tx: "trace xw = trace w0 @ Visit n # (replicate k ApiRequest @ es)"
            "visits (replicate k ApiRequest @ es) = []"
            "\<forall>b\<in>set (backends (replicate k ApiRequest @ es)). b = ?b"
            using x ts by simp_all
          have "\<exists>res. process_step E cfg pr step (ex, n) w0 = (res, xw)
                  \<and> (\<forall>ex' n'. res = Inr (ex', n') \<longrightarrow> n' = n + 1)"
            using g Inr gen s saved ok x
            by (cases xr) (auto simp: process_step_def Let_def case_prod_beta)
          then show ?thesis using tx by blast
        qed
      qed
    qed
  qed
qed

lemma upt_step: "[n ..< n + Suc k] = n # [n + 1 ..< n + 1 + k]"
proof -
  have "n < n + Suc k" by simp
  from upt_conv_Cons[OF this] have "[n ..< n + Suc k] = n # [Suc n ..< n + Suc k]" .
  moreover have "Suc n = n + 1" and "n + Suc k = n + 1 + k" by simp_all
  ultimately show ?thesis by metis
qed

lemma upt_join: "[n ..< n + (a + b)] = [n ..< n + a] @ [n + a ..< n + a + b]"
proof -
  have "n \<le> n + a" by simp
  from upt_add_eq_append[OF this, of b] show ?thesis by (simp only: add.assoc)
qed

lemma process_section_visits:
  "\<exists>res w' k. process_section E cfg pr steps (ex, n) w = (res, w')
      \<and> k \<le> length steps
      \<and> visits (trace w') = visits (trace w) @ [n ..< n + k]
      \<and> (\<forall>ex' n'. res = Inr (ex', n') \<longrightarrow> k = length steps \<and> n' = n + length steps)"
proof (induction steps arbitrary: ex n w)
  case Nil
  have "process_section E cfg pr [] (ex, n) w = (Inr (ex, n), w)" by simp
  moreover have "visits (trace w) = visits (trace w) @ [n ..< n + 0]" by simp
  ultimately show ?case by (metis le0 list.size(3) add_0_right old.prod.inject sum.inject(2))
next
  case (Cons step steps)
  obtain r1 w1 es where s1: "process_step E cfg pr step (ex, n) w = (r1, w1)"
      "trace w1 = trace w @ Visit n # es" "visits es = []"
      "\<forall>ex' n'. r1 = Inr (ex', n') \<longrightarrow> n' = n + 1"
    using process_step_shape[of E cfg pr step ex n w] by blast
  have v1: "visits (trace w1) = visits (trace w) @ [n]" using s1(2,3) by simp
  show ?case
  proof (cases r1)
    case (Inl s)
    then have "process_section E cfg pr (step # steps) (ex, n) w = (Inl s, w1)"
      using s1(1) by simp
    moreover have "visits (trace w1) = visits (trace w) @ [n ..< n + 1]" using v1 by simp
    moreover have "(1::nat) \<le> length (step # steps)" by simp
    ultimately show ?thesis by blast
  next
    case (Inr st)
    obtain ex1 n1 where st: "st = (ex1, n1)" by (cases st)
    have n1: "n1 = n + 1" using s1(4) Inr st by simp
    from Cons.IH[of ex1 "n + 1" w1] obtain res w' k where
      s2: "process_section E cfg pr steps (ex1, n + 1) w1 = (res, w')" "k \<le> length steps"
        "visits (trace w') = visits (trace w1) @ [n + 1 ..< n + 1 + k]"
        "\<forall>ex' n'. res = Inr (ex', n') \<longrightarrow> k = length steps \<and> n' = n + 1 + length steps"
      by blast
    have "process_section E cfg pr (step # steps) (ex, n) w = (res, w')"
      using s1(1) Inr st n1 s2(1) by simp
    moreover have "Suc k \<le> length (step # steps)" using s2(2) by simp
    moreover have "visits (trace w') = visits (trace w) @ [n ..< n + Suc k]"
      using s2(3) v1 by (simp only: upt_step append_assoc append_Cons append_Nil)
    moreover have "\<forall>ex' n'. res = Inr (ex', n')
                     \<longrightarrow> Suc k = length (step # steps) \<and> n' = n + length (step # steps)"
      using s2(4) by simp
    ultimately show ?thesis by blast
  qed
qed

lemma process_sections_visits:
  "\<exists>res w' k. process_sections E cfg pr plan (ex, n) w = (res, w')
      \<and> k \<le> length (concat (map snd plan))
      \<and> visits (trace w') = visits (trace w) @ [n ..< n + k]
      \<and> (\<forall>ex' n'. res = Inr (ex', n')
            \<longrightarrow> k = length (concat (map snd plan)) \<and> n' = n + length (concat (map snd plan)))"
proof (induction plan arbitrary: ex n w)
  case Nil
  have "process_sections E cfg pr [] (ex, n) w = (Inr (ex, n), w)" by simp
  moreover have "visits (trace w) = visits (trace w) @ [n ..< n + 0]" by simp
  moreover have "length (concat (map snd ([] :: (string \<times> string list) list))) = 0" by simp
  ultimately show ?case by (metis le0 add_0_right old.prod.inject sum.inject(2))
next
  case (Cons sec plan)
  obtain title steps where sec: "sec = (title, steps)" by (cases sec)
  let ?m = "length (concat (map snd plan))"
  have len: "length (concat (map snd (sec # plan))) = length steps + ?m" using sec by simp
  obtain r1 w1 k1 where s1: "process_section E cfg pr steps (ex, n) w = (r1, w1)"
      "k1 \<le> length steps" "visits (trace w1) = visits (trace w) @ [n ..< n + k1]"
      "\<forall>ex' n'. r1 = Inr (ex', n') \<longrightarrow> k1 = length steps \<and> n' = n + length steps"
    using process_section_visits[of E cfg pr steps ex n w] by blast
  show ?case
  proof (cases r1)
    case (Inl s)
    then have "process_sections E cfg pr (sec # plan) (ex, n) w = (Inl s, w1)"
      using s1(1) sec by simp
    moreover have "k1 \<le> length (concat (map snd (sec # plan)))" using s1(2) len by simp
    ultimately show ?thesis using s1(3) by blast
  next
    case (Inr st)
    obtain ex1 n1 where st: "st = (ex1, n1)" by (cases st)
    have n1: "n1 = n + length steps" "k1 = length steps" using s1(4) Inr st by simp_all
    from Cons.IH[of ex1 "n + length steps" w1] obtain res w' k2 where
      s2: "process_sections E cfg pr plan (ex1, n + length steps) w1 = (res, w')" "k2 \<le> ?m"
        "visits (trace w') = visits (trace w1) @ [n + length steps ..< n + length steps + k2]"
        "\<forall>ex' n'. res = Inr (ex', n') \<longrightarrow> k2 = ?m \<and> n' = n + length steps + ?m"
      by blast
    have "process_sections E cfg pr (sec # plan) (ex, n) w = (res, w')"
      using s1(1) Inr st n1 s2(1) sec by simp
    moreover have "length steps + k2 \<le> length (concat (map snd (sec # plan)))"
      using s2(2) len by simp
    moreover have "visits (trace w') = visits (trace w) @ [n ..< n + (length steps + k2)]"
      using s2(3) s1(3) n1(2) by (simp only: upt_join append_assoc)
    moreover have "\<forall>ex' n'. res = Inr (ex', n')
        \<longrightarrow> length steps + k2 = length (concat (map snd (sec # plan)))
          \<and> n' = n + length (concat (map snd (sec # plan)))"
      using s2(4) len by (simp add: add.assoc)
    ultimately show ?thesis by blast
  qed
qed

lemma str_nat_digit: "n < 10 \<Longrightarrow> str_nat n = [digit_char n]"
  by (subst str_nat.simps) simp

lemma str_nat_small [simp]: "str_nat (Suc 0) = ''1''" "str_nat 2 = ''2''" "str_nat 3 = ''3''"
  by (simp_all add: str_nat_digit digit_char_def)

lemma pad3_small [simp]: "pad3 ''1'' = ''001''" "pad3 ''2'' = ''002''" "pad3 ''3'' = ''003''"
  by (simp_all add: pad3_def numeral_2_eq_2)

lemma main_code_small:
  \<open>main_code (Suc 0) = ''\<newline>\<newline>if __name__ == "__main__":\<newline>    step = Step1()\<newline>    step.execute()\<newline>''\<close>
  \<open>main_code 2 = ''\<newline>\<newline>if __name__ == "__main__":\<newline>    step = Step2()\<newline>    step.execute()\<newline>''\<close>
  by (simp_all add: main_code_def)

lemma step_text_nonempty [simp]: "step_text n \<noteq> []"
  by (simp add: step_text_def)

lemma has_main_step_tree [simp]:
  "\<not> has_main (step_tree n)" "has_main (step_tree n @ [main_guard])"
  by (simp_all add: has_main_def step_tree_def main_guard_def)

lemma first_class_step_tree [simp]:
  "first_class (step_tree n) = Some (''Step'' @ str_nat n)"
  "first_class (step_tree n @ [main_guard]) = Some (''Step'' @ str_nat n)"
  by (simp_all add: step_tree_def)

lemma example_parse_step:
  "example_parse (step_text (Suc 0)) = Some (step_tree (Suc 0))"
  "example_parse (step_text (Suc 0) @ main_code (Suc 0)) = Some (step_tree (Suc 0) @ [main_guard])"
  "example_parse (step_text 2) = Some (step_tree 2)"
  "example_parse (step_text 2 @ main_code 2) = Some (step_tree 2 @ [main_guard])"
  by (simp_all add: example_parse_def step_text_def main_code_small)

lemma save_step_written:
  "file_write E w (path_join (steps_directory cfg) (''step_'' @ pad3 (str_nat n) @ ''.py'')) code
     = Written \<Longrightarrow>
   save_step_code E cfg w n code
     = (Inr (Some (path_join (steps_directory cfg) (''step_'' @ pad3 (str_nat n) @ ''.py''))),
        w\<lparr>files := (files w)(path_join (steps_directory cfg) (''step_'' @ pad3 (str_nat n) @ ''.py'')
                              \<mapsto> code)\<rparr>)"
  by (simp add: save_step_code_def write_file_def Let_def)

lemma quiet_step:
  "process_step quiet_env cfg pr step (ex, n) w
     = (Inr (ex, n + 1), emit ApiRequest (emit (Visit n) w))"
  by (simp add: process_step_def generate_step_code_def with_backoff.simps quiet_env_def falsy_def)

lemma garbled_step1:
  "process_step garbled example_config ''p'' ''a'' ([], Suc 0) empty_world
     = (Inl UnicodeError,
        \<lparr>files = [''steps/step_001.py'' \<mapsto> step_text (Suc 0) @ main_code (Suc 0)],
         trace = [Visit (Suc 0), ApiRequest, RunStep ''steps/step_001.py'' Local]\<rparr>)"
proof -
  let ?w1 = "emit ApiRequest (emit (Visit (Suc 0)) empty_world)"
  let ?txt = "step_text (Suc 0) @ main_code (Suc 0)"
  let ?w2 = "\<lparr>files = [''steps/step_001.py'' \<mapsto> ?txt], trace = [Visit (Suc 0), ApiRequest]\<rparr>"
  have gen: "generate_step_code garbled (emit (Visit (Suc 0)) empty_world) ''a'' ''p'' (Suc 0)
               = (Inr (Some (step_text (Suc 0))), ?w1)"
    by (simp add: generate_step_code_def with_backoff.simps garbled_def quiet_env_def)
  have norm: "add_main_block (ast_parse garbled) (step_text (Suc 0)) (Suc 0) = ?txt"
    by (simp add: add_main_block_def garbled_def quiet_env_def example_parse_step)
  have cls: "extract_class_name (ast_parse garbled) ?txt = Some ''Step1''"
    by (simp add: extract_class_name_def garbled_def quiet_env_def example_parse_step)
  have path: "path_join (steps_directory example_config) ''step_001.py'' = ''steps/step_001.py''"
    by (simp add: path_join_def example_config_def)
  have save: "save_step_code garbled example_config ?w1 (Suc 0) ?txt = (Inr (Some ''steps/step_001.py''), ?w2)"
    by (subst save_step_written) (simp_all add: path garbled_def quiet_env_def emit_def empty_world_def)
  have sel: "select_backend (remote_servers example_config) (Suc 0) = (False, None)"
    by (simp add: example_config_def)
  have run: "execute_and_fix_step garbled ?w2 ''steps/step_001.py'' (Suc 0) ''p''
               (max_retries example_config) False None
             = (Inl UnicodeError,
                \<lparr>files = [''steps/step_001.py'' \<mapsto> ?txt],
                 trace = [Visit (Suc 0), ApiRequest, RunStep ''steps/step_001.py'' Local]\<rparr>)"
    by (simp add: execute_and_fix_step_def efs_loop.simps run_step_def garbled_def quiet_env_def
          example_config_def get_step_code_def read_file_def emit_def Let_def)
  show ?thesis
    by (simp add: process_step_def gen norm cls save sel run falsy_def Let_def)
qed

lemma select_backend_first_listing:
  "select_backend servers n =
     (case first_listing servers n of
        None \<Rightarrow> (False, None)
      | Some s \<Rightarrow> (execute_remotely s, Some s))"
  by (induction servers) (simp_all add: first_listing_def)

lemma backend_of_select_backend:
  "backend_of (fst (select_backend servers n)) (snd (select_backend servers n))
     = chosen_backend servers n"
  by (simp add: select_backend_first_listing chosen_backend_def backend_of_def
           split: option.splits)

lemma first_listing_lists:
  "first_listing servers n = Some s \<Longrightarrow> int n \<in> set (steps_to_execute s)"
  by (auto simp: first_listing_def find_Some_iff)

lemma chosen_backend_lists:
  "chosen_backend servers n = Remote s \<Longrightarrow> int n \<in> set (steps_to_execute s)"
  by (auto simp: chosen_backend_def split: option.splits if_splits dest: first_listing_lists)

lemma remote_step2:
  "process_step remote_env remote_config ''p'' ''s'' ([], 2) empty_world
     = (Inr ([''steps/step_002.py''], 3),
        \<lparr>files = [''steps/step_002.py'' \<mapsto> step_text 2 @ main_code 2],
         trace = [Visit 2, ApiRequest, RunStep ''steps/step_002.py'' (Remote example_server)]\<rparr>)"
proof -
  let ?w1 = "emit ApiRequest (emit (Visit 2) empty_world)"
  let ?txt = "step_text 2 @ main_code 2"
  let ?w2 = "\<lparr>files = [''steps/step_002.py'' \<mapsto> ?txt], trace = [Visit 2, ApiRequest]\<rparr>"
  have gen: "generate_step_code remote_env (emit (Visit 2) empty_world) ''s'' ''p'' 2
               = (Inr (Some (step_text 2)), ?w1)"
    by (simp add: generate_step_code_def with_backoff.simps remote_env_def quiet_env_def)
  have norm: "add_main_block (ast_parse remote_env) (step_text 2) 2 = ?txt"
    by (simp add: add_main_block_def remote_env_def quiet_env_def example_parse_step)
  have cls: "extract_class_name (ast_parse remote_env) ?txt = Some ''Step2''"
    by (simp add: extract_class_name_def remote_env_def quiet_env_def example_parse_step)
  have path: "path_join (steps_directory remote_config) ''step_002.py'' = ''steps/step_002.py''"
    by (simp add: path_join_def remote_config_def example_config_def)
  have save: "save_step_code remote_env remote_config ?w1 2 ?txt = (Inr (Some ''steps/step_002.py''), ?w2)"
    by (subst save_step_written) (simp_all add: path remote_env_def quiet_env_def emit_def empty_world_def)
  have sel: "select_backend (remote_servers remote_config) 2 = (True, Some example_server)"
    by (simp add: remote_config_def example_config_def idle_server_def example_server_def
          late_server_def)
  have run: "execute_and_fix_step remote_env ?w2 ''steps/step_002.py'' 2 ''p''
               (max_retries remote_config) True (Some example_server)
             = (Inr True,
                \<lparr>files = [''steps/step_002.py'' \<mapsto> ?txt],
                 trace = [Visit 2, ApiRequest, RunStep ''steps/step_002.py'' (Remote example_server)]\<rparr>)"
    by (simp add: execute_and_fix_step_def efs_loop.simps run_step_def establish_connection_def
          execute_command_def remote_env_def quiet_env_def remote_config_def example_config_def
          emit_def Let_def)
  show ?thesis
    by (simp add: process_step_def gen norm cls save sel run falsy_def Let_def)
qed

lemma remote_run:
  assumes "establish_connection E w sc" "sftp_put E w sc p (''/tmp/'' @ basename p)"
    "exec_command E w sc (''python '' @ ''/tmp/'' @ basename p) = (Streams out err status, fs)"
  shows "run_step E w p True (Some sc)
     = (Inr (if err = [] then (True, out) else (False, err)),
        (emit (RunStep p (Remote sc)) w)\<lparr>files := fs\<rparr>)"
  using assms by (simp add: run_step_def execute_command_def Let_def)

lemma local_backend_run:
  assumes "backend_of remotely server_config = Local"
    "subprocess_run E w p = (Exited code out err, fs)"
  shows "run_step E w p remotely server_config
     = (Inr (if code = 0 then (True, out) else (False, err)),
        (emit (RunStep p Local) w)\<lparr>files := fs\<rparr>)"
  using assms
  by (auto simp: run_step_def backend_of_def Let_def split: bool.splits option.splits)

lemma loop_pass_failed_run:
  assumes "run_step E w p r sc = (Inr (False, err), w1)"
  shows "case loop_pass E p n pr r sc w of
           Leaves res \<Rightarrow> fst res \<noteq> Inr True
         | GoesOn w3 \<Rightarrow> executions w3 = executions w1"
proof (cases "get_step_code E w1 p")
  case (Inl s)
  then show ?thesis using assms by (simp add: loop_pass_def)
next
  case (Inr code)
  show ?thesis
  proof (cases "code = []")
    case True
    then show ?thesis using assms Inr by (simp add: loop_pass_def)
  next
    case False
    obtain fr w2 where f: "fix_code_with_gpt4 E w1 err code n pr = (fr, w2)"
      by (cases "fix_code_with_gpt4 E w1 err code n pr")
    have e2: "executions w2 = executions w1"
      using fix_code_counts[of E w1 err code n pr] f by simp
    show ?thesis
    proof (cases fr)
      case (Inl s)
      then show ?thesis using assms Inr False f by (simp add: loop_pass_def)
    next
      case (Inr corrected)
      note c = this
      show ?thesis
      proof (cases "falsy corrected")
        case True
        then show ?thesis using assms \<open>get_step_code E w1 p = Inr code\<close> False f c
          by (simp add: loop_pass_def)
      next
        case nf: False
        obtain ur w3 where u: "update_step_code E w2 p (the corrected) = (ur, w3)"
          by (cases "update_step_code E w2 p (the corrected)")
        have e3: "executions w3 = executions w2"
          using update_step_code_counts[of E w2 p "the corrected"] u by simp
        show ?thesis
          using assms \<open>get_step_code E w1 p = Inr code\<close> False f c nf u e2 e3
          by (cases ur) (simp_all add: loop_pass_def)
      qed
    qed
  qed
qed

lemma main_code_nonempty [simp]: "main_code n \<noteq> []"
  by (simp add: main_code_def)

lemma add_main_block_cases:
  "parse s = None \<Longrightarrow> add_main_block parse s n = s"
  "parse s = Some t \<Longrightarrow> has_main t \<Longrightarrow> add_main_block parse s n = s"
  "parse s = Some t \<Longrightarrow> \<not> has_main t \<Longrightarrow> add_main_block parse s n = s @ main_code n"
  by (simp_all add: add_main_block_def)

lemma efs_loop_first_run:
  assumes "retries < maxr"
  shows "\<exists>es. trace (snd (efs_loop E p n pr maxr r sc retries w))
            = trace w @ RunStep p (backend_of r sc) # es"
proof -
  obtain es where es: "trace (pass_world (loop_pass E p n pr r sc w))
      = trace w @ RunStep p (backend_of r sc) # es"
    using loop_pass_trace by blast
  show ?thesis
  proof (cases "loop_pass E p n pr r sc w")
    case (Leaves res)
    then show ?thesis using es efs_loop_pass[OF assms, of E p n pr r sc w] by simp
  next
    case (GoesOn w3)
    obtain es2 where "trace (snd (efs_loop E p n pr maxr r sc (retries + 1) w3)) = trace w3 @ es2"
      using efs_loop_trace[of maxr "retries + 1" "nat (maxr - (retries + 1))" E p n pr r sc w3]
      by blast
    then show ?thesis using GoesOn es efs_loop_pass[OF assms, of E p n pr r sc w] by simp
  qed
qed

lemma generate_step_code_counts [simp]:
  "executions (snd (generate_step_code E w step pr n)) = executions w"
  "oracle_calls (snd (generate_step_code E w step pr n)) = oracle_calls w"
  by (simp_all add: generate_step_code_def)

lemma save_step_code_counts [simp]:
  "executions (snd (save_step_code E cfg w n code)) = executions w"
  "oracle_calls (snd (save_step_code E cfg w n code)) = oracle_calls w"
  by (simp_all add: executions_def oracle_calls_def)

lemma process_step_no_class:
  assumes gen: "generate_step_code E (emit (Visit n) w0) step pr n = (Inr g, w1)"
    and none: "falsy g \<or> falsy (extract_class_name (ast_parse E)
                                   (add_main_block (ast_parse E) (the g) n))"
  shows "executions (snd (process_step E cfg pr step (ex, n) w0)) = executions w0"
    and "oracle_calls (snd (process_step E cfg pr step (ex, n) w0)) = oracle_calls w0"
    and "fst (process_step E cfg pr step (ex, n) w0) = Inr (ex, n + 1)
         \<or> (\<exists>s. fst (process_step E cfg pr step (ex, n) w0) = Inl s
               \<and> fst (save_step_code E cfg w1 n (add_main_block (ast_parse E) (the g) n)) = Inl s)"
proof -
  let ?code = "add_main_block (ast_parse E) (the g) n"
  have e1: "executions w1 = executions w0" "oracle_calls w1 = oracle_calls w0"
    using generate_step_code_counts[of E "emit (Visit n) w0" step pr n] gen by simp_all
  obtain sr w2 where save: "save_step_code E cfg w1 n ?code = (sr, w2)"
    by (cases "save_step_code E cfg w1 n ?code")
  have e2: "executions w2 = executions w1" "oracle_calls w2 = oracle_calls w1"
    using save_step_code_counts[of E cfg w1 n ?code] save by simp_all
  have r: "process_step E cfg pr step (ex, n) w0
             = (if falsy g then (Inr (ex, n + 1), w1)
                else case sr of Inl s \<Rightarrow> (Inl s, w2) | Inr sp \<Rightarrow> (Inr (ex, n + 1), w2))"
    using gen save none by (auto simp add: process_step_def Let_def split: sum.splits)
  show "executions (snd (process_step E cfg pr step (ex, n) w0)) = executions w0"
    using r e1 e2 by (simp split: sum.splits)
  show "oracle_calls (snd (process_step E cfg pr step (ex, n) w0)) = oracle_calls w0"
    using r e1 e2 by (simp split: sum.splits)
  show "fst (process_step E cfg pr step (ex, n) w0) = Inr (ex, n + 1)
         \<or> (\<exists>s. fst (process_step E cfg pr step (ex, n) w0) = Inl s
               \<and> fst (save_step_code E cfg w1 n ?code) = Inl s)"
    using r save by (simp split: sum.splits)
qed

lemma process_step_enters_loop:
  assumes gen: "generate_step_code E (emit (Visit n) w0) step pr n = (Inr g, w1)"
    and g: "\<not> falsy g"
    and save: "save_step_code E cfg w1 n (add_main_block (ast_parse E) (the g) n) = (Inr sp, w2)"
    and sp: "\<not> falsy sp"
    and cls: "\<not> falsy (extract_class_name (ast_parse E) (add_main_block (ast_parse E) (the g) n))"
    and budget: "0 < max_retries cfg"
  shows "Suc (executions w0) \<le> executions (snd (process_step E cfg pr step (ex, n) w0))"
proof -
  let ?sel = "select_backend (remote_servers cfg) n"
  let ?run = "execute_and_fix_step E w2 (the sp) n pr (max_retries cfg) (fst ?sel) (snd ?sel)"
  have e1: "executions w1 = executions w0"
    using generate_step_code_counts[of E "emit (Visit n) w0" step pr n] gen by simp
  have e2: "executions w2 = executions w1"
    using save_step_code_counts[of E cfg w1 n "add_main_block (ast_parse E) (the g) n"] save
    by simp
  obtain es where "trace (snd ?run) = trace w2 @ RunStep (the sp) (backend_of (fst ?sel) (snd ?sel)) # es"
    unfolding execute_and_fix_step_def using efs_loop_first_run[OF budget] by blast
  then have e3: "Suc (executions w2) \<le> executions (snd ?run)"
    by (simp add: executions_def)
  have "snd (process_step E cfg pr step (ex, n) w0) = snd ?run"
    using gen g save sp cls
    by (simp add: process_step_def Let_def case_prod_beta split: sum.splits)
  then show ?thesis using e1 e2 e3 by simp
qed

lemma mute_step:
  "process_step mute cfg pr step (ex, n) w
     = (Inr (ex, n + 1), emit ApiRequest (emit (Visit n) w))"
  by (simp add: process_step_def generate_step_code_def with_backoff.simps mute_def quiet_env_def
        falsy_def)

lemma foo_step1:
  "process_step foo_env example_config ''p'' ''a'' ([], Suc 0) empty_world
     = (Inr ([''steps/step_001.py''], 2),
        \<lparr>files = [''steps/step_001.py'' \<mapsto> ''class Foo:\<newline>    pass'' @ main_code (Suc 0)],
         trace = [Visit (Suc 0), ApiRequest, RunStep ''steps/step_001.py'' Local]\<rparr>)"
proof -
  let ?w1 = "emit ApiRequest (emit (Visit (Suc 0)) empty_world)"
  let ?foo = "''class Foo:\<newline>    pass''"
  let ?txt = "?foo @ main_code (Suc 0)"
  let ?w2 = "\<lparr>files = [''steps/step_001.py'' \<mapsto> ?txt], trace = [Visit (Suc 0), ApiRequest]\<rparr>"
  have p1: "example_parse ?foo = Some [ClassDef ''Foo'' [OtherStmt []]]"
    and p2: "example_parse ?txt = Some [ClassDef ''Foo'' [OtherStmt []], main_guard]"
    by (simp_all add: example_parse_def step_text_def main_code_small)
  have gen: "generate_step_code foo_env (emit (Visit (Suc 0)) empty_world) ''a'' ''p'' (Suc 0)
               = (Inr (Some ?foo), ?w1)"
    by (simp add: generate_step_code_def with_backoff.simps foo_env_def quiet_env_def)
  have norm: "add_main_block (ast_parse foo_env) ?foo (Suc 0) = ?txt"
    using p1 by (simp add: add_main_block_def foo_env_def quiet_env_def has_main_def)
  have cls: "extract_class_name (ast_parse foo_env) ?txt = Some ''Foo''"
    using p2 by (simp add: extract_class_name_def foo_env_def quiet_env_def)
  have path: "path_join (steps_directory example_config) ''step_001.py'' = ''steps/step_001.py''"
    by (simp add: path_join_def example_config_def)
  have save: "save_step_code foo_env example_config ?w1 (Suc 0) ?txt = (Inr (Some ''steps/step_001.py''), ?w2)"
    by (subst save_step_written) (simp_all add: path foo_env_def quiet_env_def emit_def empty_world_def)
  have sel: "select_backend (remote_servers example_config) (Suc 0) = (False, None)"
    by (simp add: example_config_def)
  have run: "execute_and_fix_step foo_env ?w2 ''steps/step_001.py'' (Suc 0) ''p''
               (max_retries example_config) False None
             = (Inr True,
                \<lparr>files = [''steps/step_001.py'' \<mapsto> ?txt],
                 trace = [Visit (Suc 0), ApiRequest, RunStep ''steps/step_001.py'' Local]\<rparr>)"
    by (simp add: execute_and_fix_step_def efs_loop.simps run_step_def foo_env_def quiet_env_def
          example_config_def emit_def Let_def)
  show ?thesis
    using gen norm cls save sel run by (simp add: process_step_def falsy_def Let_def)
qed

lemma assemble_one_skip:
  assumes "get_step_code E w p = Inr code"
    "code = [] \<or> falsy (extract_class_name (ast_parse E) code)"
  shows "assemble_one E w p acc = Inr acc"
  using assms by (auto simp: assemble_one_def Let_def split: option.splits prod.splits)

lemma assemble_loop_skip:
  assumes "get_step_code E w p = Inr code"
    "code = [] \<or> falsy (extract_class_name (ast_parse E) code)"
  shows "assemble_loop E w (xs @ p # ys) acc = assemble_loop E w (xs @ ys) acc"
proof (induction xs arbitrary: acc)
  case Nil
  show ?case using assemble_one_skip[OF assms] by simp
next
  case (Cons x xs)
  then show ?case by (simp split: sum.splits)
qed

lemma assemble_loop_all_skip:
  assumes "\<forall>p\<in>set paths. \<exists>code. get_step_code E w p = Inr code
              \<and> (code = [] \<or> falsy (extract_class_name (ast_parse E) code))"
  shows "assemble_loop E w paths acc = Inr acc"
  using assms
proof (induction paths)
  case Nil
  show ?case by simp
next
  case (Cons p paths)
  then obtain code where "get_step_code E w p = Inr code"
      "code = [] \<or> falsy (extract_class_name (ast_parse E) code)"
    by auto
  then have "assemble_one E w p acc = Inr acc" by (rule assemble_one_skip)
  then show ?case using Cons by simp
qed

lemma assemble_one_returns:
  assumes "get_step_code E w p = Inr code"
  shows "\<exists>acc'. assemble_one E w p acc = Inr acc' \<and> (fst acc \<noteq> [] \<longrightarrow> fst acc' \<noteq> [])"
  using assms by (auto simp: assemble_one_def Let_def split: option.splits prod.splits)

lemma assemble_one_adds:
  assumes "search_step_number (basename p) = Some k" "get_step_code E w p = Inr code"
    "code \<noteq> []" "\<not> falsy (extract_class_name (ast_parse E) code)"
  shows "\<exists>acc'. assemble_one E w p acc = Inr acc' \<and> fst acc' \<noteq> []"
  using assms by (auto simp: assemble_one_def Let_def split: option.splits prod.splits)

lemma assemble_loop_some:
  assumes "\<forall>q\<in>set paths. \<exists>code. get_step_code E w q = Inr code"
    "fst acc \<noteq> [] \<or> (\<exists>p\<in>set paths. \<exists>k code. search_step_number (basename p) = Some k
        \<and> get_step_code E w p = Inr code \<and> code \<noteq> []
        \<and> \<not> falsy (extract_class_name (ast_parse E) code))"
  shows "\<exists>acc'. assemble_loop E w paths acc = Inr acc' \<and> fst acc' \<noteq> []"
  using assms
proof (induction paths arbitrary: acc)
  case Nil
  then show ?case by simp
next
  case (Cons q paths)
  obtain code where c: "get_step_code E w q = Inr code" using Cons.prems(1) by auto
  obtain acc1 where a1: "assemble_one E w q acc = Inr acc1" "fst acc \<noteq> [] \<longrightarrow> fst acc1 \<noteq> []"
    using assemble_one_returns[OF c] by blast
  have rest: "\<forall>q\<in>set paths. \<exists>code. get_step_code E w q = Inr code" using Cons.prems(1) by simp
  have "fst acc1 \<noteq> [] \<or> (\<exists>p\<in>set paths. \<exists>k code. search_step_number (basename p) = Some k
        \<and> get_step_code E w p = Inr code \<and> code \<noteq> []
        \<and> \<not> falsy (extract_class_name (ast_parse E) code))"
  proof (cases "fst acc \<noteq> []")
    case True
    then show ?thesis using a1(2) by simp
  next
    case False
    then obtain p k code' where p: "p \<in> set (q # paths)" "search_step_number (basename p) = Some k"
        "get_step_code E w p = Inr code'" "code' \<noteq> []"
        "\<not> falsy (extract_class_name (ast_parse E) code')"
      using Cons.prems(2) by blast
    show ?thesis
    proof (cases "p = q")
      case True
      then show ?thesis using assemble_one_adds[OF p(2,3,4,5), of acc] a1(1) by auto
    next
      case False
      then have "p \<in> set paths" using p(1) by simp
      then show ?thesis using p(2,3,4,5) by blast
    qed
  qed
  from Cons.IH[OF rest this] show ?case using a1(1) by simp
qed

lemma assemble_solution_nothing:
  assumes "\<forall>p\<in>set paths. \<exists>code. get_step_code E (emit (Assemble paths) w) p = Inr code
              \<and> (code = [] \<or> falsy (extract_class_name (ast_parse E) code))"
  shows "assemble_solution E cfg w paths = (Inr None, emit (Assemble paths) w)"
  using assemble_loop_all_skip[OF assms, of "([], [])"]
  by (simp add: assemble_solution_def Let_def)

lemma assemble_solution_some:
  assumes "\<forall>q\<in>set paths. \<exists>code. get_step_code E (emit (Assemble paths) w) q = Inr code"
    "\<exists>p\<in>set paths. \<exists>k code. search_step_number (basename p) = Some k
        \<and> get_step_code E (emit (Assemble paths) w) p = Inr code \<and> code \<noteq> []
        \<and> \<not> falsy (extract_class_name (ast_parse E) code)"
    "\<forall>text. file_write E (emit (Assemble paths) w) (path_join (solution_directory cfg) ''main.py'')
        text = Written"
  shows "fst (assemble_solution E cfg w paths)
           = Inr (Some (path_join (solution_directory cfg) ''main.py''))"
proof -
  obtain acc' where a: "assemble_loop E (emit (Assemble paths) w) paths ([], []) = Inr acc'"
      "fst acc' \<noteq> []"
    using assemble_loop_some[OF assms(1), of "([], [])"] assms(2) by blast
  show ?thesis
    using a assms(3)
    by (cases acc') (simp add: assemble_solution_def Let_def write_file_def)
qed

lemma two_steps_read:
  "get_step_code parsing_env (emit e two_steps) ''steps/step_001.py''
     = Inr (step_text (Suc 0) @ main_code (Suc 0))"
  "get_step_code parsing_env (emit e two_steps) ''steps/step_002.py'' = Inr ''print(1)''"
  by (simp_all add: get_step_code_def read_file_def parsing_env_def quiet_env_def two_steps_def
        emit_def)

lemma two_steps_classes:
  "extract_class_name (ast_parse parsing_env) (step_text (Suc 0) @ main_code (Suc 0)) = Some ''Step1''"
  "extract_class_name (ast_parse parsing_env) ''print(1)'' = None"
  by (simp_all add: extract_class_name_def parsing_env_def quiet_env_def example_parse_step
        example_parse_def step_text_def main_code_small)

lemma step_file_number:
  "search_step_number (basename ''steps/step_001.py'') = Some ''001''"
  by (simp add: basename_def match_step_at_def is_digit_def)

section \<open>The retry budget of a step\<close>

text \<open>
  Claim C1, as amended. \<^verbatim>\<open>execute_and_fix_step\<close> never executes the artifact more than
  \<open>max_retries\<close> times. Let \<open>max_retries \<ge> 1\<close>. If every execution attempt that the loop
  makes fails and, after each of these failures, the stored code is read back and is not
  empty, the repair oracle returns a non-empty correction and the update of the file
  returns, then the artifact is executed exactly \<open>max_retries\<close> times and the call returns
  failure, the last thing it does being the log of the exceeded budget. If the attempts
  before the \<open>k\<close>-th fail and are repaired in this way and the \<open>k\<close>-th succeeds, for some
  \<open>k \<le> max_retries\<close>, the call returns success after exactly \<open>k\<close> executions and \<open>k - 1\<close>
  calls of the oracle, the successful execution being the last thing it does.

  The attempts that the loop makes are described by \<open>J\<close>: \<open>J j\<close> holds of the world in which
  attempt \<open>j + 1\<close> starts.
\<close>

theorem C1_retry_budget:
  "executions (snd (execute_and_fix_step E w0 p n pr maxr r sc)) \<le> executions w0 + nat maxr
   \<and> (1 \<le> maxr \<and> J 0 w0
        \<and> (\<forall>j w. j < nat maxr \<and> J j w \<longrightarrow>
              (\<exists>err w1 code c w2 w3.
                  run_step E w p r sc = (Inr (False, err), w1)
                \<and> get_step_code E w1 p = Inr code \<and> code \<noteq> []
                \<and> fix_code_with_gpt4 E w1 err code n pr = (Inr (Some c), w2) \<and> c \<noteq> []
                \<and> update_step_code E w2 p c = (Inr (), w3) \<and> J (Suc j) w3))
      \<longrightarrow> (\<exists>w'. execute_and_fix_step E w0 p n pr maxr r sc = (Inr False, w')
              \<and> executions w' = executions w0 + nat maxr
              \<and> last (trace w') = MaxRetriesExceeded n))
   \<and> (1 \<le> k \<and> int k \<le> maxr \<and> J 0 w0
        \<and> (\<forall>j w. j < k - 1 \<and> J j w \<longrightarrow>
              (\<exists>err w1 code c w2 w3.
                  run_step E w p r sc = (Inr (False, err), w1)
                \<and> get_step_code E w1 p = Inr code \<and> code \<noteq> []
                \<and> fix_code_with_gpt4 E w1 err code n pr = (Inr (Some c), w2) \<and> c \<noteq> []
                \<and> update_step_code E w2 p c = (Inr (), w3) \<and> J (Suc j) w3))
        \<and> (\<forall>w. J (k - 1) w \<longrightarrow> (\<exists>out w1. run_step E w p r sc = (Inr (True, out), w1)))
      \<longrightarrow> (\<exists>w'. execute_and_fix_step E w0 p n pr maxr r sc = (Inr True, w')
              \<and> executions w' = executions w0 + k
              \<and> oracle_calls w' = oracle_calls w0 + (k - 1)
              \<and> (\<exists>b. last (trace w') = RunStep p b)))"
proof (intro conjI impI)
  show "executions (snd (execute_and_fix_step E w0 p n pr maxr r sc)) \<le> executions w0 + nat maxr"
    using efs_loop_bound[of E p n pr maxr r sc 0 w0] by (simp add: execute_and_fix_step_def)
next
  assume H: "1 \<le> maxr \<and> J 0 w0
        \<and> (\<forall>j w. j < nat maxr \<and> J j w \<longrightarrow>
              (\<exists>err w1 code c w2 w3.
                  run_step E w p r sc = (Inr (False, err), w1)
                \<and> get_step_code E w1 p = Inr code \<and> code \<noteq> []
                \<and> fix_code_with_gpt4 E w1 err code n pr = (Inr (Some c), w2) \<and> c \<noteq> []
                \<and> update_step_code E w2 p c = (Inr (), w3) \<and> J (Suc j) w3))"
  then have hyp: "\<forall>j w. j < nat maxr \<longrightarrow> J j w
                    \<longrightarrow> (\<exists>w3. loop_pass E p n pr r sc w = GoesOn w3 \<and> J (Suc j) w3)"
    unfolding loop_pass_GoesOn_iff by blast
  have le: "int (nat maxr) \<le> maxr - 0" using H by simp
  from efs_loop_rounds[OF hyp le, of w0] H obtain w1 where w1:
    "efs_loop E p n pr maxr r sc 0 w0 = efs_loop E p n pr maxr r sc (0 + int (nat maxr)) w1"
    "executions w1 = executions w0 + nat maxr"
    by blast
  have "efs_loop E p n pr maxr r sc (0 + int (nat maxr)) w1 = (Inr False, emit (MaxRetriesExceeded n) w1)"
    using H by (simp add: efs_loop_exhausted)
  then have "execute_and_fix_step E w0 p n pr maxr r sc = (Inr False, emit (MaxRetriesExceeded n) w1)"
    using w1(1) by (simp add: execute_and_fix_step_def)
  moreover have "executions (emit (MaxRetriesExceeded n) w1) = executions w0 + nat maxr"
    using w1(2) by simp
  moreover have "last (trace (emit (MaxRetriesExceeded n) w1)) = MaxRetriesExceeded n" by simp
  ultimately show "\<exists>w'. execute_and_fix_step E w0 p n pr maxr r sc = (Inr False, w')
              \<and> executions w' = executions w0 + nat maxr
              \<and> last (trace w') = MaxRetriesExceeded n"
    by blast
next
  assume H: "1 \<le> k \<and> int k \<le> maxr \<and> J 0 w0
        \<and> (\<forall>j w. j < k - 1 \<and> J j w \<longrightarrow>
              (\<exists>err w1 code c w2 w3.
                  run_step E w p r sc = (Inr (False, err), w1)
                \<and> get_step_code E w1 p = Inr code \<and> code \<noteq> []
                \<and> fix_code_with_gpt4 E w1 err code n pr = (Inr (Some c), w2) \<and> c \<noteq> []
                \<and> update_step_code E w2 p c = (Inr (), w3) \<and> J (Suc j) w3))
        \<and> (\<forall>w. J (k - 1) w \<longrightarrow> (\<exists>out w1. run_step E w p r sc = (Inr (True, out), w1)))"
  then have hyp: "\<forall>j w. j < k - 1 \<longrightarrow> J j w
                    \<longrightarrow> (\<exists>w3. loop_pass E p n pr r sc w = GoesOn w3 \<and> J (Suc j) w3)"
    unfolding loop_pass_GoesOn_iff by blast
  have le: "int (k - 1) \<le> maxr - 0" using H by simp
  from efs_loop_rounds[OF hyp le, of w0] H obtain w1 where w1:
    "efs_loop E p n pr maxr r sc 0 w0 = efs_loop E p n pr maxr r sc (0 + int (k - 1)) w1"
    "J (k - 1) w1" "executions w1 = executions w0 + (k - 1)"
    "oracle_calls w1 = oracle_calls w0 + (k - 1)"
    by blast
  from H w1(2) obtain out w2 where run: "run_step E w1 p r sc = (Inr (True, out), w2)" by blast
  have lt: "0 + int (k - 1) < maxr" using H by auto
  have pass: "loop_pass E p n pr r sc w1 = Leaves (Inr True, w2)"
    using run by (simp add: loop_pass_def)
  have res: "execute_and_fix_step E w0 p n pr maxr r sc = (Inr True, w2)"
    using efs_loop_pass[OF lt, of E p n pr r sc w1] pass w1(1)
    by (simp add: execute_and_fix_step_def)
  have w2: "w2 = snd (run_step E w1 p r sc)" using run by simp
  have "executions w2 = executions w0 + k" using w1(3) H by (simp add: w2)
  moreover have "oracle_calls w2 = oracle_calls w0 + (k - 1)" using w1(4) by (simp add: w2)
  moreover have "\<exists>b. last (trace w2) = RunStep p b" by (simp add: w2)
  ultimately show "\<exists>w'. execute_and_fix_step E w0 p n pr maxr r sc = (Inr True, w')
              \<and> executions w' = executions w0 + k
              \<and> oracle_calls w' = oracle_calls w0 + (k - 1)
              \<and> (\<exists>b. last (trace w') = RunStep p b)"
    using res by blast
qed

theorem C1_retry_budget_witness:
  "(\<exists>w'. execute_and_fix_step never_fixed stored_world ''steps/step_001.py'' 1 ''p'' 2 False None
            = (Inr False, w')
        \<and> executions w' = 2 \<and> last (trace w') = MaxRetriesExceeded 1)
   \<and> (\<exists>w'. execute_and_fix_step fixed_once stored_world ''steps/step_001.py'' 1 ''p'' 3 False None
            = (Inr True, w')
        \<and> executions w' = 2 \<and> oracle_calls w' = 1)"
proof -
  let ?p = "''steps/step_001.py''"
  let ?J = "\<lambda>(j::nat) w. \<exists>t. files w ?p = Some t \<and> t \<noteq> [] \<and> t \<noteq> good_text"
  let ?K = "\<lambda>(j::nat) w. files w ?p = Some (if j = 0 then ''class Step1: pass'' else good_text)"
  have z: "executions stored_world = 0" "oracle_calls stored_world = 0"
    by (simp_all add: executions_def oracle_calls_def stored_world_def)
  have j0: "?J 0 stored_world" by (simp add: stored_world_def good_text_def)
  have jstep: "\<forall>j w. j < nat 2 \<and> ?J j w \<longrightarrow>
              (\<exists>err w1 code c w2 w3.
                  run_step never_fixed w ?p False None = (Inr (False, err), w1)
                \<and> get_step_code never_fixed w1 ?p = Inr code \<and> code \<noteq> []
                \<and> fix_code_with_gpt4 never_fixed w1 err code 1 ''p'' = (Inr (Some c), w2) \<and> c \<noteq> []
                \<and> update_step_code never_fixed w2 ?p c = (Inr (), w3) \<and> ?J (Suc j) w3)"
    using never_fixed_pass by blast
  have k0: "?K 0 stored_world" by (simp add: stored_world_def)
  have kstep: "\<forall>j w. j < 2 - 1 \<and> ?K j w \<longrightarrow>
              (\<exists>err w1 code c w2 w3.
                  run_step fixed_once w ?p False None = (Inr (False, err), w1)
                \<and> get_step_code fixed_once w1 ?p = Inr code \<and> code \<noteq> []
                \<and> fix_code_with_gpt4 fixed_once w1 err code 1 ''p'' = (Inr (Some c), w2) \<and> c \<noteq> []
                \<and> update_step_code fixed_once w2 ?p c = (Inr (), w3) \<and> ?K (Suc j) w3)"
    using fixed_once_pass by auto
  have ksucc: "\<forall>w. ?K (2 - 1) w \<longrightarrow> (\<exists>out w1. run_step fixed_once w ?p False None = (Inr (True, out), w1))"
    using fixed_once_success by simp
  note A = C1_retry_budget[of never_fixed stored_world ?p 1 "''p''" 2 False None ?J 0,
             THEN conjunct2, THEN conjunct1]
  note B = C1_retry_budget[of fixed_once stored_world ?p 1 "''p''" 3 False None ?K 2,
             THEN conjunct2, THEN conjunct2]
  have preA: "(1::int) \<le> 2 \<and> ?J 0 stored_world
        \<and> (\<forall>j w. j < nat 2 \<and> ?J j w \<longrightarrow>
              (\<exists>err w1 code c w2 w3.
                  run_step never_fixed w ?p False None = (Inr (False, err), w1)
                \<and> get_step_code never_fixed w1 ?p = Inr code \<and> code \<noteq> []
                \<and> fix_code_with_gpt4 never_fixed w1 err code 1 ''p'' = (Inr (Some c), w2) \<and> c \<noteq> []
                \<and> update_step_code never_fixed w2 ?p c = (Inr (), w3) \<and> ?J (Suc j) w3))"
    using j0 jstep by simp
  have preB: "(1::nat) \<le> 2 \<and> int 2 \<le> 3 \<and> ?K 0 stored_world
        \<and> (\<forall>j w. j < 2 - 1 \<and> ?K j w \<longrightarrow>
              (\<exists>err w1 code c w2 w3.
                  run_step fixed_once w ?p False None = (Inr (False, err), w1)
                \<and> get_step_code fixed_once w1 ?p = Inr code \<and> code \<noteq> []
                \<and> fix_code_with_gpt4 fixed_once w1 err code 1 ''p'' = (Inr (Some c), w2) \<and> c \<noteq> []
                \<and> update_step_code fixed_once w2 ?p c = (Inr (), w3) \<and> ?K (Suc j) w3))
        \<and> (\<forall>w. ?K (2 - 1) w \<longrightarrow> (\<exists>out w1. run_step fixed_once w ?p False None = (Inr (True, out), w1)))"
    using k0 kstep ksucc by simp
  have n: "executions stored_world + nat 2 = 2" "executions stored_world + 2 = 2"
    "oracle_calls stored_world + (2 - 1) = 1"
    using z by simp_all
  from mp[OF A preA] obtain wa where
    a: "execute_and_fix_step never_fixed stored_world ?p 1 ''p'' 2 False None = (Inr False, wa)"
       "executions wa = executions stored_world + nat 2" "last (trace wa) = MaxRetriesExceeded 1"
    by blast
  from mp[OF B preB] obtain wb where
    b: "execute_and_fix_step fixed_once stored_world ?p 1 ''p'' 3 False None = (Inr True, wb)"
       "executions wb = executions stored_world + 2"
       "oracle_calls wb = oracle_calls stored_world + (2 - 1)"
    by blast
  have "executions wa = 2" "executions wb = 2" "oracle_calls wb = 1"
    using a(2) b(2,3) n by (simp_all only:)
  then show ?thesis using a(1,3) b(1) by blast
qed

theorem C1_unreadable_counterexample:
  "(\<forall>w. \<exists>err w1. run_step unreadable w ''steps/step_001.py'' False None = (Inr (False, err), w1))
   \<and> (\<forall>w err code. \<exists>c w2. fix_code_with_gpt4 unreadable w err code 1 ''p'' = (Inr (Some c), w2)
                          \<and> c \<noteq> [])
   \<and> (1::int) \<le> 2
   \<and> fst (execute_and_fix_step unreadable stored_world ''steps/step_001.py'' 1 ''p'' 2 False None)
       = Inr False
   \<and> executions (snd (execute_and_fix_step unreadable stored_world ''steps/step_001.py'' 1 ''p'' 2
        False None)) = 1
   \<and> oracle_calls (snd (execute_and_fix_step unreadable stored_world ''steps/step_001.py'' 1 ''p'' 2
        False None)) = 0"
proof -
  have "\<And>w. subprocess_run unreadable w ''steps/step_001.py'' = (Exited 1 [] ''boom'', files w)"
    by (simp add: unreadable_def quiet_env_def)
  from local_run[OF this]
  have a: "\<forall>w. \<exists>err w1. run_step unreadable w ''steps/step_001.py'' False None = (Inr (False, err), w1)"
    by simp
  have "fix_api unreadable = (\<lambda>w e c n pr. Reply ''class Step1: bad'')"
    by (simp add: unreadable_def quiet_env_def)
  from fix_reply[OF this]
  have b: "\<forall>w err code. \<exists>c w2. fix_code_with_gpt4 unreadable w err code 1 ''p'' = (Inr (Some c), w2)
                          \<and> c \<noteq> []"
    by simp
  have z: "executions stored_world = 0" "oracle_calls stored_world = 0"
    by (simp_all add: executions_def oracle_calls_def stored_world_def)
  show ?thesis using a b z unreadable_run by simp
qed

section \<open>A repair that yields nothing\<close>

text \<open>
  Claim C3. At any point of the execute-and-repair loop with budget left, when an
  execution fails, the stored code is read back and the repair oracle then returns nothing
  or the empty text, the loop ends there with failure: since the failed execution it has
  called the oracle once, executed nothing more and written nothing, and it has not
  reached the end of its budget.
\<close>

theorem C3_no_correction_abandons:
  assumes "retries < maxr"
    and "run_step E w p r sc = (Inr (False, err), w1)"
    and "get_step_code E w1 p = Inr code" and "code \<noteq> []"
    and "fix_code_with_gpt4 E w1 err code n pr = (Inr corrected, w2)" and "falsy corrected"
  shows "efs_loop E p n pr maxr r sc retries w = (Inr False, w2)
     \<and> executions w2 = executions w + 1 \<and> oracle_calls w2 = oracle_calls w + 1
     \<and> updates w2 = updates w \<and> last (trace w2) \<noteq> MaxRetriesExceeded n"
proof -
  have pass: "loop_pass E p n pr r sc w = Leaves (Inr False, w2)"
    using assms(2-6) by (simp add: loop_pass_def)
  have w1: "w1 = snd (run_step E w p r sc)" using assms(2) by simp
  have w2: "w2 = snd (fix_code_with_gpt4 E w1 err code n pr)" using assms(5) by simp
  have "efs_loop E p n pr maxr r sc retries w = (Inr False, w2)"
    using efs_loop_pass[OF assms(1), of E p n pr r sc w] pass by simp
  moreover have "executions w2 = executions w + 1" "oracle_calls w2 = oracle_calls w + 1"
    "updates w2 = updates w"
    by (simp_all add: w1 w2)
  moreover have "last (trace w2) \<noteq> MaxRetriesExceeded n"
    using loop_pass_last[of E p n pr r sc w n] pass by simp
  ultimately show ?thesis by simp
qed

theorem C3_no_correction_abandons_witness:
  "efs_loop no_repair ''steps/step_001.py'' 1 ''p'' 5 False None 0 stored_world
     = (Inr False, emit ApiRequest (emit (FixRequest 1) (emit (RunStep ''steps/step_001.py'' Local) stored_world)))
   \<and> executions (emit ApiRequest (emit (FixRequest 1) (emit (RunStep ''steps/step_001.py'' Local) stored_world))) = 1
   \<and> oracle_calls (emit ApiRequest (emit (FixRequest 1) (emit (RunStep ''steps/step_001.py'' Local) stored_world))) = 1"
proof -
  have a: "(0::int) < 5" by simp
  have d: "''class Step1: pass'' \<noteq> []" by simp
  have f: "falsy (Some [])" by (simp add: falsy_def)
  have z: "executions stored_world = 0" "oracle_calls stored_world = 0"
    by (simp_all add: executions_def oracle_calls_def stored_world_def)
  from C3_no_correction_abandons[OF a no_repair_evals(1) no_repair_evals(2) d no_repair_evals(3) f] z
  show ?thesis by simp
qed

section \<open>The last correction of an abandoned step\<close>

text \<open>
  Claim C10, as amended. When \<^verbatim>\<open>execute_and_fix_step\<close> ends by exceeding a budget
  \<open>max_retries \<ge> 1\<close>, it has executed the artifact \<open>max_retries\<close> times, asked the repair
  oracle \<open>max_retries\<close> times, once after each failed execution, the last one too, and
  handed \<open>max_retries\<close> corrections to \<^verbatim>\<open>update_step_code\<close>. The last thing before the log
  of the exceeded budget is the update with the correction that the oracle returned for
  the last failed execution, so this correction is never executed. It is what the file
  holds when that write succeeds; when \<^verbatim>\<open>open\<close> fails the file keeps what it held, and
  after a failure in \<^verbatim>\<open>write\<close> it holds what the failed write left.
\<close>

theorem C10_last_correction_not_run:
  assumes "1 \<le> maxr"
    and "execute_and_fix_step E w0 p n pr maxr r sc = (res, w')"
    and "last (trace w') = MaxRetriesExceeded n"
  shows "res = Inr False \<and> executions w' = executions w0 + nat maxr
     \<and> oracle_calls w' = oracle_calls w0 + nat maxr
     \<and> updates w' = updates w0 + nat maxr
     \<and> (\<exists>wr err w1 code cl w2 w3.
           run_step E wr p r sc = (Inr (False, err), w1)
         \<and> get_step_code E w1 p = Inr code
         \<and> fix_code_with_gpt4 E w1 err code n pr = (Inr (Some cl), w2) \<and> cl \<noteq> []
         \<and> update_step_code E w2 p cl = (Inr (), w3)
         \<and> trace w' = trace w2 @ [UpdateStep p cl, MaxRetriesExceeded n]
         \<and> files w' p =
             (case file_write E (emit (UpdateStep p cl) w2) p cl of
                Written \<Rightarrow> Some cl
              | OpenFails \<Rightarrow> files w2 p
              | WriteFails left \<Rightarrow> Some left
              | WriteRaises s left \<Rightarrow> Some left))"
proof -
  have d: "nat (maxr - 0) = nat maxr" by simp
  have run: "efs_loop E p n pr maxr r sc 0 w0 = (res, w')"
    using assms(2) by (simp add: execute_and_fix_step_def)
  have lt: "0 < maxr" using assms(1) by simp
  note A = efs_loop_abandoned[OF d run assms(3)]
  from A lt obtain wr err w1 code cl w2 w3 where
    l: "run_step E wr p r sc = (Inr (False, err), w1)" "get_step_code E w1 p = Inr code"
       "fix_code_with_gpt4 E w1 err code n pr = (Inr (Some cl), w2)" "cl \<noteq> []"
       "update_step_code E w2 p cl = (Inr (), w3)" "w' = emit (MaxRetriesExceeded n) w3"
    by blast
  have w3: "w3 = snd (update_step_code E w2 p cl)" using l(5) by simp
  have t: "trace w' = trace w2 @ [UpdateStep p cl, MaxRetriesExceeded n]"
    by (simp add: l(6) w3)
  have f: "files w' p =
             (case file_write E (emit (UpdateStep p cl) w2) p cl of
                Written \<Rightarrow> Some cl
              | OpenFails \<Rightarrow> files w2 p
              | WriteFails left \<Rightarrow> Some left
              | WriteRaises s left \<Rightarrow> Some left)"
    by (simp add: l(6) w3 update_step_code_files split: write_outcome.splits)
  show ?thesis using A l(1-5) t f by blast
qed

theorem C10_last_correction_not_run_witness:
  "fst (execute_and_fix_step two_answers stored_world ''steps/step_001.py'' 1 ''p'' 2 False None)
     = Inr False
   \<and> executions (snd (execute_and_fix_step two_answers stored_world ''steps/step_001.py'' 1 ''p'' 2 False None)) = 2
   \<and> oracle_calls (snd (execute_and_fix_step two_answers stored_world ''steps/step_001.py'' 1 ''p'' 2 False None)) = 2
   \<and> updates (snd (execute_and_fix_step two_answers stored_world ''steps/step_001.py'' 1 ''p'' 2 False None)) = 2
   \<and> files (snd (execute_and_fix_step two_answers stored_world ''steps/step_001.py'' 1 ''p'' 2 False None))
        ''steps/step_001.py'' = Some ''class Step1: second''"
proof -
  let ?res = "execute_and_fix_step two_answers stored_world ''steps/step_001.py'' 1 ''p'' 2 False None"
  have a: "(1::int) \<le> 2" by simp
  have b: "?res = (fst ?res, snd ?res)" by simp
  have c: "last (trace (snd ?res)) = MaxRetriesExceeded 1"
    using two_answers_run by simp
  have z: "executions stored_world = 0" "oracle_calls stored_world = 0" "updates stored_world = 0"
    by (simp_all add: executions_def oracle_calls_def updates_def stored_world_def)
  from C10_last_correction_not_run[OF a b c] z two_answers_run show ?thesis
    by simp
qed

theorem C10_failed_write_counterexample:
  "fst (execute_and_fix_step readonly stored_world ''steps/step_001.py'' 1 ''p'' 2 False None)
     = Inr False
   \<and> last (trace (snd (execute_and_fix_step readonly stored_world ''steps/step_001.py'' 1 ''p'' 2
        False None))) = MaxRetriesExceeded 1
   \<and> executions (snd (execute_and_fix_step readonly stored_world ''steps/step_001.py'' 1 ''p'' 2
        False None)) = 2
   \<and> (\<forall>w err code. fst (fix_code_with_gpt4 readonly w err code 1 ''p'') = Inr (Some ''class Step1: bad''))
   \<and> files (snd (execute_and_fix_step readonly stored_world ''steps/step_001.py'' 1 ''p'' 2
        False None)) ''steps/step_001.py'' = Some ''class Step1: pass''
   \<and> ''class Step1: pass'' \<noteq> ''class Step1: bad''"
proof -
  have "fix_api readonly = (\<lambda>w e c n pr. Reply ''class Step1: bad'')"
    by (simp add: readonly_def quiet_env_def)
  from fix_reply[OF this]
  have b: "\<forall>w err code. fst (fix_code_with_gpt4 readonly w err code 1 ''p'') = Inr (Some ''class Step1: bad'')"
    by simp
  show ?thesis using b readonly_run by (simp add: executions_def)
qed

section \<open>The ordinals of a plan\<close>

text \<open>
  Claim C7, as amended. For a plan of \<open>N\<close> steps over all its sections, the ordinals that
  \<^verbatim>\<open>process_steps\<close> visits are \<open>1, \<dots>, k\<close> in this order, each once, for some \<open>k \<le> N\<close>, and
  \<open>k = N\<close> whenever \<^verbatim>\<open>process_steps\<close> returns, that is, when no call made for a step ends
  the run with an error that nothing catches or never ends. Each pass of the step loop
  starts exactly one visit, that of the current ordinal, and whenever it returns (no
  generated code, the file not saved, no class found, the execution given up or
  successful) it leaves the ordinal incremented by one.
\<close>

theorem C7_ordinals_in_order:
  "(\<exists>k. k \<le> length (concat (map snd plan))
        \<and> visits (trace (snd (process_steps E cfg w plan pr))) = visits (trace w) @ [1 ..< Suc k]
        \<and> (\<forall>done. fst (process_steps E cfg w plan pr) = Inr done
              \<longrightarrow> k = length (concat (map snd plan))))
   \<and> visits (trace (snd (process_step E cfg pr step (ex, n) w))) = visits (trace w) @ [n]
   \<and> (\<forall>ex' n'. fst (process_step E cfg pr step (ex, n) w) = Inr (ex', n') \<longrightarrow> n' = n + 1)"
proof (intro conjI)
  obtain res w' k where s:
      "process_sections E cfg pr plan ([], 1) w = (res, w')"
      "k \<le> length (concat (map snd plan))"
      "visits (trace w') = visits (trace w) @ [1 ..< 1 + k]"
      "\<forall>ex' n'. res = Inr (ex', n') \<longrightarrow> k = length (concat (map snd plan))
                    \<and> n' = 1 + length (concat (map snd plan))"
    using process_sections_visits[of E cfg pr plan "[]" 1 w] by blast
  have w': "snd (process_steps E cfg w plan pr) = w'"
    using s(1) by (simp add: process_steps_def split: sum.splits prod.splits)
  have r: "\<forall>done. fst (process_steps E cfg w plan pr) = Inr done
              \<longrightarrow> k = length (concat (map snd plan))"
    using s(1,4) by (auto simp: process_steps_def split: sum.splits prod.splits)
  have "visits (trace (snd (process_steps E cfg w plan pr))) = visits (trace w) @ [1 ..< Suc k]"
    using s(3) w' by simp
  then show "\<exists>k. k \<le> length (concat (map snd plan))
        \<and> visits (trace (snd (process_steps E cfg w plan pr))) = visits (trace w) @ [1 ..< Suc k]
        \<and> (\<forall>done. fst (process_steps E cfg w plan pr) = Inr done
              \<longrightarrow> k = length (concat (map snd plan)))"
    using s(2) r by blast
next
  obtain r1 w1 es where s1: "process_step E cfg pr step (ex, n) w = (r1, w1)"
      "trace w1 = trace w @ Visit n # es" "visits es = []"
      "\<forall>ex' n'. r1 = Inr (ex', n') \<longrightarrow> n' = n + 1"
    using process_step_shape[of E cfg pr step ex n w] by blast
  show "visits (trace (snd (process_step E cfg pr step (ex, n) w))) = visits (trace w) @ [n]"
    using s1(1,2,3) by simp
  show "\<forall>ex' n'. fst (process_step E cfg pr step (ex, n) w) = Inr (ex', n') \<longrightarrow> n' = n + 1"
    using s1(1,4) by simp
qed

theorem C7_ordinals_in_order_witness:
  "fst (process_steps quiet_env example_config empty_world
          [(''Setup'', [''a'', ''b'']), (''Build'', [''c''])] ''p'') = Inr []
   \<and> visits (trace (snd (process_steps quiet_env example_config empty_world
      [(''Setup'', [''a'', ''b'']), (''Build'', [''c''])] ''p''))) = [1, 2, 3]"
proof -
  let ?plan = "[(''Setup'', [''a'', ''b'']), (''Build'', [''c''])]"
  have a: "visits (trace empty_world) = []" by (simp add: empty_world_def)
  have n: "length (concat (map snd ?plan)) = 3" by simp
  have c: "[1 ..< Suc 3] = [1, 2, 3::nat]" by code_simp
  have ret: "fst (process_steps quiet_env example_config empty_world ?plan ''p'') = Inr []"
    by (simp add: process_steps_def quiet_step)
  from C7_ordinals_in_order[of ?plan quiet_env example_config empty_world "''p''" "''a''" "[]" 1]
  obtain k where k: "visits (trace (snd (process_steps quiet_env example_config empty_world ?plan ''p'')))
          = visits (trace empty_world) @ [1 ..< Suc k]"
      "\<forall>done. fst (process_steps quiet_env example_config empty_world ?plan ''p'') = Inr done
          \<longrightarrow> k = length (concat (map snd ?plan))"
    by blast
  have "k = 3" using k(2) ret n by simp
  then have "visits (trace (snd (process_steps quiet_env example_config empty_world ?plan ''p'')))
          = [1, 2, 3]"
    using k(1) a c by (simp only: append_Nil)
  then show ?thesis using ret by blast
qed

theorem C7_escaping_error_counterexample:
  "length (concat (map snd [(''Setup'', [''a'', ''b''])])) = 2
   \<and> fst (process_steps garbled example_config empty_world [(''Setup'', [''a'', ''b''])] ''p'')
       = Inl UnicodeError
   \<and> visits (trace (snd (process_steps garbled example_config empty_world
        [(''Setup'', [''a'', ''b''])] ''p''))) = [1]"
  using garbled_step1 by (simp add: process_steps_def)

section \<open>The back end of a step\<close>



section \<open>What counts as a successful execution\<close>



section \<open>Normalisation of generated code\<close>




section \<open>Generated code without a class\<close>

text \<open>
  Claim C2, as amended. When \<^verbatim>\<open>generate_step_code\<close> returns nothing or the empty text, or
  when \<^verbatim>\<open>extract_class_name\<close> finds no class at the top level of the normalised text (also
  when the text does not parse), the step fails at once: it is not executed, the repair
  oracle is not asked, the step is not among the executed steps and the ordinal moves on;
  the one other outcome is that saving the file ends the run. Nothing else is asked of the
  text: when it has a class at the top level, of whatever name and with or without
  \<^verbatim>\<open>execute\<close>, and the file is saved, the execute-and-repair loop is entered and the step is
  executed at least once (with a budget of at least one).
\<close>

theorem C2_generation_failure:
  "(generate_step_code E (emit (Visit n) w0) step pr n = (Inr g, w1)
      \<and> (falsy g \<or> falsy (extract_class_name (ast_parse E)
                              (add_main_block (ast_parse E) (the g) n)))
    \<longrightarrow> executions (snd (process_step E cfg pr step (ex, n) w0)) = executions w0
        \<and> oracle_calls (snd (process_step E cfg pr step (ex, n) w0)) = oracle_calls w0
        \<and> (fst (process_step E cfg pr step (ex, n) w0) = Inr (ex, n + 1)
           \<or> (\<exists>s. fst (process_step E cfg pr step (ex, n) w0) = Inl s
                 \<and> fst (save_step_code E cfg w1 n (add_main_block (ast_parse E) (the g) n))
                     = Inl s)))
   \<and> (generate_step_code E (emit (Visit n) w0) step pr n = (Inr g, w1) \<and> \<not> falsy g
      \<and> save_step_code E cfg w1 n (add_main_block (ast_parse E) (the g) n) = (Inr sp, w2)
      \<and> \<not> falsy sp
      \<and> \<not> falsy (extract_class_name (ast_parse E) (add_main_block (ast_parse E) (the g) n))
      \<and> 0 < max_retries cfg
    \<longrightarrow> Suc (executions w0) \<le> executions (snd (process_step E cfg pr step (ex, n) w0)))"
  using process_step_no_class[of E n w0 step pr g w1 cfg ex]
    process_step_enters_loop[of E n w0 step pr g w1 cfg sp w2 ex]
  by blast

theorem C2_generation_failure_witness:
  "fst (process_step mute example_config ''p'' ''a'' ([], 1) empty_world) = Inr ([], 2)
   \<and> executions (snd (process_step mute example_config ''p'' ''a'' ([], 1) empty_world)) = 0
   \<and> oracle_calls (snd (process_step mute example_config ''p'' ''a'' ([], 1) empty_world)) = 0
   \<and> fst (process_step classless example_config ''p'' ''a'' ([], 1) empty_world) = Inr ([], 2)
   \<and> executions (snd (process_step classless example_config ''p'' ''a'' ([], 1) empty_world)) = 0
   \<and> 1 \<le> executions (snd (process_step foo_env example_config ''p'' ''a'' ([], 1) empty_world))"
proof -
  let ?v = "emit (Visit (Suc 0)) empty_world"
  let ?w1 = "emit ApiRequest ?v"
  have z: "executions empty_world = 0" "oracle_calls empty_world = 0"
    by (simp_all add: executions_def oracle_calls_def empty_world_def)
  have w: "write_file E w p t = (Inr True, w\<lparr>files := (files w)(p \<mapsto> t)\<rparr>)"
    if "file_write E = (\<lambda>w p t. Written)" for E w p t
    using that by (simp add: write_file_def)
  have gm: "generate_step_code mute ?v ''a'' ''p'' (Suc 0) = (Inr (Some []), ?w1)"
    by (simp add: generate_step_code_def with_backoff.simps mute_def quiet_env_def)
  have sm: "\<And>s. fst (save_step_code mute example_config ?w1 (Suc 0)
                       (add_main_block (ast_parse mute) (the (Some [])) (Suc 0))) \<noteq> Inl s"
    by (simp add: save_step_code_def Let_def w mute_def quiet_env_def)
  note M = C2_generation_failure[of mute "Suc 0" empty_world "''a''" "''p''" "Some []" ?w1
             example_config "[]" None empty_world]
  have m: "fst (process_step mute example_config ''p'' ''a'' ([], Suc 0) empty_world) = Inr ([], 2)"
      "executions (snd (process_step mute example_config ''p'' ''a'' ([], Suc 0) empty_world)) = 0"
      "oracle_calls (snd (process_step mute example_config ''p'' ''a'' ([], Suc 0) empty_world)) = 0"
    using M gm sm z by (auto simp: falsy_def)
  have gc: "generate_step_code classless ?v ''a'' ''p'' (Suc 0) = (Inr (Some ''print(1)''), ?w1)"
    by (simp add: generate_step_code_def with_backoff.simps classless_def quiet_env_def)
  have pc: "example_parse ''print(1)'' = Some [OtherStmt []]"
      "example_parse (''print(1)'' @ main_code (Suc 0)) = Some [OtherStmt [], main_guard]"
    by (simp_all add: example_parse_def step_text_def main_code_small)
  have nc: "add_main_block (ast_parse classless) ''print(1)'' (Suc 0) = ''print(1)'' @ main_code (Suc 0)"
    using pc by (simp add: add_main_block_def classless_def quiet_env_def has_main_def)
  have cc: "extract_class_name (ast_parse classless) (''print(1)'' @ main_code (Suc 0)) = None"
    using pc by (simp add: extract_class_name_def classless_def quiet_env_def main_guard_def)
  have sc: "\<And>s. fst (save_step_code classless example_config ?w1 (Suc 0)
                       (add_main_block (ast_parse classless) (the (Some ''print(1)'')) (Suc 0))) \<noteq> Inl s"
    by (simp add: save_step_code_def Let_def w classless_def quiet_env_def)
  note C = C2_generation_failure[of classless "Suc 0" empty_world "''a''" "''p''"
             "Some ''print(1)''" ?w1 example_config "[]" None empty_world]
  have c: "fst (process_step classless example_config ''p'' ''a'' ([], Suc 0) empty_world) = Inr ([], 2)"
      "executions (snd (process_step classless example_config ''p'' ''a'' ([], Suc 0) empty_world)) = 0"
    using C gc nc cc sc z by (auto simp: falsy_def)
  let ?foo = "''class Foo:\<newline>    pass''"
  let ?txt = "?foo @ main_code (Suc 0)"
  let ?w2 = "\<lparr>files = [''steps/step_001.py'' \<mapsto> ?txt], trace = [Visit (Suc 0), ApiRequest]\<rparr>"
  have pf: "example_parse ?foo = Some [ClassDef ''Foo'' [OtherStmt []]]"
      "example_parse ?txt = Some [ClassDef ''Foo'' [OtherStmt []], main_guard]"
    by (simp_all add: example_parse_def step_text_def main_code_small)
  have gf: "generate_step_code foo_env ?v ''a'' ''p'' (Suc 0) = (Inr (Some ?foo), ?w1)"
    by (simp add: generate_step_code_def with_backoff.simps foo_env_def quiet_env_def)
  have nf: "add_main_block (ast_parse foo_env) ?foo (Suc 0) = ?txt"
    using pf by (simp add: add_main_block_def foo_env_def quiet_env_def has_main_def)
  have cf: "extract_class_name (ast_parse foo_env) ?txt = Some ''Foo''"
    using pf by (simp add: extract_class_name_def foo_env_def quiet_env_def)
  have path: "path_join (steps_directory example_config) ''step_001.py'' = ''steps/step_001.py''"
    by (simp add: path_join_def example_config_def)
  have sf: "save_step_code foo_env example_config ?w1 (Suc 0) ?txt = (Inr (Some ''steps/step_001.py''), ?w2)"
    by (subst save_step_written) (simp_all add: path foo_env_def quiet_env_def emit_def empty_world_def)
  have b: "0 < max_retries example_config" by (simp add: example_config_def)
  note F = C2_generation_failure[of foo_env "Suc 0" empty_world "''a''" "''p''" "Some ?foo" ?w1
             example_config "[]" "Some ''steps/step_001.py''" ?w2]
  have f: "Suc 0 \<le> executions (snd (process_step foo_env example_config ''p'' ''a'' ([], Suc 0) empty_world))"
    using F gf nf cf sf b z by (simp add: falsy_def)
  show ?thesis using m c f by simp
qed

theorem C2_other_class_counterexample:
  "generate_api foo_env empty_world ''p'' ''a'' 1 = Reply ''class Foo:\<newline>    pass''
   \<and> \<not> has_step_entry (ast_parse foo_env) ''class Foo:\<newline>    pass'' 1
   \<and> fst (process_step foo_env example_config ''p'' ''a'' ([], 1) empty_world)
       = Inr ([''steps/step_001.py''], 2)
   \<and> executions (snd (process_step foo_env example_config ''p'' ''a'' ([], 1) empty_world)) = 1"
proof -
  have "example_parse ''class Foo:\<newline>    pass'' = Some [ClassDef ''Foo'' [OtherStmt []]]"
    by (simp add: example_parse_def step_text_def main_code_small)
  then have "\<not> has_step_entry (ast_parse foo_env) ''class Foo:\<newline>    pass'' 1"
    by (simp add: has_step_entry_def foo_env_def quiet_env_def)
  moreover have "generate_api foo_env empty_world ''p'' ''a'' 1 = Reply ''class Foo:\<newline>    pass''"
    by (simp add: foo_env_def quiet_env_def)
  ultimately show ?thesis
    using foo_step1 by (simp add: executions_def)
qed

section \<open>Artifacts without a class in the assembly\<close>

text \<open>
  Claim C5, as amended. An artifact whose text is read back empty or in which
  \<^verbatim>\<open>extract_class_name\<close> finds no class is skipped by \<^verbatim>\<open>assemble_solution\<close>: the imports and
  calls collected are those of the list without it. The assembly fails, with no
  \<^verbatim>\<open>main.py\<close> written, when every artifact of the list is skipped. With one artifact of
  the list that has a step file name and a class, the others readable and \<^verbatim>\<open>main.py\<close>
  writable, the assembly gives \<^verbatim>\<open>main.py\<close>, however many of the others have no class.
\<close>

theorem C5_artifact_without_class_skipped:
  "(get_step_code E w p = Inr code
      \<and> (code = [] \<or> falsy (extract_class_name (ast_parse E) code))
    \<longrightarrow> assemble_loop E w (xs @ p # ys) acc = assemble_loop E w (xs @ ys) acc)
   \<and> ((\<forall>p\<in>set paths. \<exists>code. get_step_code E (emit (Assemble paths) w0) p = Inr code
          \<and> (code = [] \<or> falsy (extract_class_name (ast_parse E) code)))
    \<longrightarrow> assemble_solution E cfg w0 paths = (Inr None, emit (Assemble paths) w0))
   \<and> ((\<forall>q\<in>set paths. \<exists>code. get_step_code E (emit (Assemble paths) w0) q = Inr code)
      \<and> (\<exists>p\<in>set paths. \<exists>k code. search_step_number (basename p) = Some k
            \<and> get_step_code E (emit (Assemble paths) w0) p = Inr code \<and> code \<noteq> []
            \<and> \<not> falsy (extract_class_name (ast_parse E) code))
      \<and> (\<forall>text. file_write E (emit (Assemble paths) w0)
                   (path_join (solution_directory cfg) ''main.py'') text = Written)
    \<longrightarrow> fst (assemble_solution E cfg w0 paths)
          = Inr (Some (path_join (solution_directory cfg) ''main.py'')))"
  using assemble_loop_skip[of E w p code xs ys acc]
    assemble_solution_nothing[of paths E w0 cfg]
    assemble_solution_some[of paths E w0 cfg]
  by blast

theorem C5_artifact_without_class_skipped_witness:
  "assemble_loop parsing_env two_steps [''steps/step_001.py'', ''steps/step_002.py''] ([], [])
     = assemble_loop parsing_env two_steps [''steps/step_001.py''] ([], [])
   \<and> assemble_solution parsing_env example_config two_steps [''steps/step_002.py'']
     = (Inr None, emit (Assemble [''steps/step_002.py'']) two_steps)
   \<and> fst (assemble_solution parsing_env example_config two_steps
            [''steps/step_001.py'', ''steps/step_002.py''])
     = Inr (Some ''solution/main.py'')"
proof -
  let ?a = "''steps/step_001.py''" and ?b = "''steps/step_002.py''"
  have r0: "get_step_code parsing_env two_steps ?b = Inr ''print(1)''"
    by (simp add: get_step_code_def read_file_def parsing_env_def quiet_env_def two_steps_def)
  have wr: "\<forall>text. file_write parsing_env (emit (Assemble [?a, ?b]) two_steps)
                (path_join (solution_directory example_config) ''main.py'') text = Written"
    by (simp add: parsing_env_def quiet_env_def)
  have mp: "path_join (solution_directory example_config) ''main.py'' = ''solution/main.py''"
    by (simp add: path_join_def example_config_def)
  have f: "falsy None" by (simp add: falsy_def)
  have nf: "\<not> falsy (Some ''Step1'')" by (simp add: falsy_def)
  note A = C5_artifact_without_class_skipped[of parsing_env two_steps ?b "''print(1)''" "[?a]" "[]"
             "([], [])" "[?b]" two_steps example_config]
  note B = C5_artifact_without_class_skipped[of parsing_env two_steps ?b "''print(1)''" "[?a]" "[]"
             "([], [])" "[?a, ?b]" two_steps example_config]
  have one: "assemble_loop parsing_env two_steps ([?a] @ ?b # []) ([], [])
               = assemble_loop parsing_env two_steps ([?a] @ []) ([], [])"
    using A r0 two_steps_classes(2) f by simp
  have two: "assemble_solution parsing_env example_config two_steps [?b]
               = (Inr None, emit (Assemble [?b]) two_steps)"
    using A two_steps_read(2)[of "Assemble [?b]"] two_steps_classes(2) f by simp
  have all: "\<forall>q\<in>set [?a, ?b]. \<exists>code. get_step_code parsing_env (emit (Assemble [?a, ?b]) two_steps) q
                = Inr code"
    using two_steps_read[of "Assemble [?a, ?b]"] by simp
  have good: "\<exists>p\<in>set [?a, ?b]. \<exists>k code. search_step_number (basename p) = Some k
            \<and> get_step_code parsing_env (emit (Assemble [?a, ?b]) two_steps) p = Inr code
            \<and> code \<noteq> []
            \<and> \<not> falsy (extract_class_name (ast_parse parsing_env) code)"
    using two_steps_read(1)[of "Assemble [?a, ?b]"] two_steps_classes(1) step_file_number nf
    by simp
  have three: "fst (assemble_solution parsing_env example_config two_steps [?a, ?b])
                 = Inr (Some ''solution/main.py'')"
    using B all good wr mp by simp
  show ?thesis using one two three by simp
qed

theorem C5_skipped_artifact_counterexample:
  "get_step_code parsing_env (emit (Assemble [''steps/step_001.py'', ''steps/step_002.py''])
      two_steps) ''steps/step_002.py'' = Inr ''print(1)''
   \<and> extract_class_name (ast_parse parsing_env) ''print(1)'' = None
   \<and> fst (assemble_solution parsing_env example_config two_steps
            [''steps/step_001.py'', ''steps/step_002.py''])
       = Inr (Some ''solution/main.py'')"
proof -
  let ?a = "''steps/step_001.py''" and ?b = "''steps/step_002.py''"
  have wr: "\<forall>text. file_write parsing_env (emit (Assemble [?a, ?b]) two_steps)
                (path_join (solution_directory example_config) ''main.py'') text = Written"
    by (simp add: parsing_env_def quiet_env_def)
  have mp: "path_join (solution_directory example_config) ''main.py'' = ''solution/main.py''"
    by (simp add: path_join_def example_config_def)
  have nf: "\<not> falsy (Some ''Step1'')" by (simp add: falsy_def)
  have all: "\<forall>q\<in>set [?a, ?b]. \<exists>code. get_step_code parsing_env (emit (Assemble [?a, ?b]) two_steps) q
                = Inr code"
    using two_steps_read[of "Assemble [?a, ?b]"] by simp
  have good: "\<exists>p\<in>set [?a, ?b]. \<exists>k code. search_step_number (basename p) = Some k
            \<and> get_step_code parsing_env (emit (Assemble [?a, ?b]) two_steps) p = Inr code
            \<and> code \<noteq> []
            \<and> \<not> falsy (extract_class_name (ast_parse parsing_env) code)"
    using two_steps_read(1)[of "Assemble [?a, ?b]"] two_steps_classes(1) step_file_number nf
    by simp
  have "fst (assemble_solution parsing_env example_config two_steps [?a, ?b])
          = Inr (Some ''solution/main.py'')"
    using assemble_solution_some[OF all good wr] mp by simp
  then show ?thesis
    using two_steps_read(2)[of "Assemble [?a, ?b]"] two_steps_classes(2) by simp
qed

end
